theory Spec2Isabelle
  imports Main "HOL-Library.Char_ord" "HOL-Library.Sublist"
begin

section \<open>The document tree of the YAML parser\<close>

text \<open>
  Both validators of \<^verbatim>\<open>main.go\<close> walk a \<^verbatim>\<open>yaml.Node\<close> tree built by
  \<^verbatim>\<open>gopkg.in/yaml.v3\<close>. Only the fields the validators read are kept: \<open>Kind\<close>,
  \<open>Tag\<close>, \<open>Value\<close>, \<open>Content\<close> and \<open>Line\<close>. \<open>ZeroKind\<close> is the zero value of an
  unset \<^verbatim>\<open>yaml.Node\<close>. Strings are byte lists, as Go strings are.
\<close>

datatype Kind = ZeroKind | DocumentNode | SequenceNode | MappingNode | ScalarNode | AliasNode

datatype Node = Node (Kind: Kind) (Tag: string) (Value: string) (Content: "Node list") (Line: int)

section \<open>Library functions used by the validators\<close>

subsection \<open>\<^verbatim>\<open>strconv.Atoi\<close> and \<^verbatim>\<open>%d\<close>\<close>

datatype NumError = ErrSyntax | ErrRange

definition isDigit :: "char \<Rightarrow> bool" where
  "isDigit c \<longleftrightarrow> CHR ''0'' \<le> c \<and> c \<le> CHR ''9''"

definition digitVal :: "char \<Rightarrow> int" where
  "digitVal c = int (of_char c) - 48"

text \<open>
  \<^verbatim>\<open>strconv.Atoi\<close> on a 64-bit platform: an optional sign, then one or more decimal
  digits and nothing else. The first component is the returned number (0 on a syntax
  error, the nearest bound on a range error), the second the returned error.
\<close>

definition Atoi :: "string \<Rightarrow> int \<times> NumError option" where
  "Atoi s =
     (if s = [] then (0, Some ErrSyntax)
      else
        let neg = (hd s = CHR ''-'');
            body = (if hd s = CHR ''-'' \<or> hd s = CHR ''+'' then tl s else s)
        in if body = [] \<or> \<not> list_all isDigit body then (0, Some ErrSyntax)
           else
             let n = foldl (\<lambda>a c. a * 10 + digitVal c) 0 body
             in if neg then (if n > 2 ^ 63 then (- (2 ^ 63), Some ErrRange) else (- n, None))
                else (if n \<ge> 2 ^ 63 then (2 ^ 63 - 1, Some ErrRange) else (n, None)))"

fun natDigits :: "nat \<Rightarrow> string" where
  "natDigits n =
     (if n < 10 then [''0123456789'' ! n]
      else natDigits (n div 10) @ [''0123456789'' ! (n mod 10)])"

declare natDigits.simps [simp del]

text \<open>The verb \<^verbatim>\<open>%d\<close> of \<^verbatim>\<open>fmt\<close> applied to an \<^verbatim>\<open>int\<close>.\<close>

definition itoa :: "int \<Rightarrow> string" where
  "itoa i = (if i < 0 then CHR ''-'' # natDigits (nat (- i)) else natDigits (nat i))"

subsection \<open>Regular expressions\<close>

text \<open>
  The compiled patterns of package \<^verbatim>\<open>regexp\<close>, as syntax trees over bytes. A class is a
  list of inclusive ranges, possibly negated. \<open>matches\<close> decides whether the whole
  string belongs to the expression, by derivatives.
\<close>

datatype regex =
    Never
  | Eps
  | Chr char
  | Class bool "(char \<times> char) list"
  | Alt regex regex
  | Seq regex regex
  | Star regex
  | Plus regex

definition inClass :: "bool \<Rightarrow> (char \<times> char) list \<Rightarrow> char \<Rightarrow> bool" where
  "inClass neg rs c \<longleftrightarrow> (list_ex (\<lambda>(lo, hi). lo \<le> c \<and> c \<le> hi) rs \<noteq> neg)"

fun nullable :: "regex \<Rightarrow> bool" where
  "nullable Never = False"
| "nullable Eps = True"
| "nullable (Chr c) = False"
| "nullable (Class neg rs) = False"
| "nullable (Alt r s) = (nullable r \<or> nullable s)"
| "nullable (Seq r s) = (nullable r \<and> nullable s)"
| "nullable (Star r) = True"
| "nullable (Plus r) = nullable r"

fun deriv :: "char \<Rightarrow> regex \<Rightarrow> regex" where
  "deriv c Never = Never"
| "deriv c Eps = Never"
| "deriv c (Chr d) = (if c = d then Eps else Never)"
| "deriv c (Class neg rs) = (if inClass neg rs c then Eps else Never)"
| "deriv c (Alt r s) = Alt (deriv c r) (deriv c s)"
| "deriv c (Seq r s) =
     (if nullable r then Alt (Seq (deriv c r) s) (deriv c s) else Seq (deriv c r) s)"
| "deriv c (Star r) = Seq (deriv c r) (Star r)"
| "deriv c (Plus r) = Seq (deriv c r) (Star r)"

definition matches :: "regex \<Rightarrow> string \<Rightarrow> bool" where
  "matches r s = nullable (fold deriv s r)"

definition lit :: "string \<Rightarrow> regex" where
  "lit s = foldr (\<lambda>c r. Seq (Chr c) r) s Eps"


definition quoted :: "string \<Rightarrow> string" where
  "quoted s = CHR 0x27 # s @ [CHR 0x27]"

subsection \<open>\<^verbatim>\<open>strings.TrimSpace\<close>\<close>

text \<open>
  \<open>TrimSpace_empty s\<close> is the test \<^verbatim>\<open>strings.TrimSpace(s) == ""\<close>: the string is a
  sequence of UTF-8 encoded white space runes (\<^verbatim>\<open>unicode.IsSpace\<close>).
\<close>

fun TrimSpace_empty :: "string \<Rightarrow> bool" where
  "TrimSpace_empty [] = True"
| "TrimSpace_empty (c # cs) =
     (if (CHR 0x09 \<le> c \<and> c \<le> CHR 0x0D) \<or> c = CHR 0x20 then TrimSpace_empty cs
      else if c = CHR 0xC2 then
        (case cs of d # ds \<Rightarrow> (d = CHR 0x85 \<or> d = CHR 0xA0) \<and> TrimSpace_empty ds | [] \<Rightarrow> False)
      else if c = CHR 0xE1 then
        (case cs of d # e # ds \<Rightarrow> d = CHR 0x9A \<and> e = CHR 0x80 \<and> TrimSpace_empty ds | _ \<Rightarrow> False)
      else if c = CHR 0xE2 then
        (case cs of
           d # e # ds \<Rightarrow>
             ((d = CHR 0x80 \<and> ((CHR 0x80 \<le> e \<and> e \<le> CHR 0x8A) \<or> e = CHR 0xA8 \<or> e = CHR 0xA9 \<or> e = CHR 0xAF))
              \<or> (d = CHR 0x81 \<and> e = CHR 0x9F)) \<and> TrimSpace_empty ds
         | _ \<Rightarrow> False)
      else if c = CHR 0xE3 then
        (case cs of d # e # ds \<Rightarrow> d = CHR 0x80 \<and> e = CHR 0x80 \<and> TrimSpace_empty ds | _ \<Rightarrow> False)
      else False)"

section \<open>The accumulating validator (first program of \<^verbatim>\<open>main.go\<close>)\<close>

text \<open>
  \<^verbatim>\<open>Validator\<close> has the fields \<^verbatim>\<open>file\<close> (here \<open>filename\<close>) and \<open>errs\<close>; \<open>stdout\<close> is the standard output of
  the process, one entry per printed line, which \<^verbatim>\<open>fail\<close> extends. Every method is a
  transformer of this state; \<open>steps\<close> runs a list of statements in sequence. No
  document makes \<open>errs\<close> reach the bound of a 64-bit \<^verbatim>\<open>int\<close>, so it is an \<open>int\<close>.
\<close>

record Validator =
  filename :: string
  errs :: int
  stdout :: "string list"

definition steps :: "('s \<Rightarrow> 's) list \<Rightarrow> 's \<Rightarrow> 's" where
  "steps bs = fold (\<lambda>b. b) bs"

definition Validator_fail :: "int \<Rightarrow> string \<Rightarrow> Validator \<Rightarrow> Validator" where
  "Validator_fail ln m v =
     v\<lparr>stdout := stdout v @ [filename v @ '':'' @ itoa ln @ '' '' @ m], errs := errs v + 1\<rparr>"

fun mapify_loop :: "Node list \<Rightarrow> (string \<rightharpoonup> Node) \<Rightarrow> (string \<rightharpoonup> Node)" where
  "mapify_loop (k # v # rest) res =
     mapify_loop rest (if Kind k = ScalarNode then res(Value k \<mapsto> v) else res)"
| "mapify_loop rest res = res"

definition mapify :: "Node \<Rightarrow> (string \<rightharpoonup> Node)" where
  "mapify n = (if Kind n \<noteq> MappingNode then Map.empty else mapify_loop (Content n) Map.empty)"


definition isInt :: "Node \<Rightarrow> bool" where
  "isInt node = (if Tag node \<noteq> ''!!int'' then False else snd (Atoi (Value node)) = None)"

definition isString :: "Node \<Rightarrow> bool" where
  "isString node \<longleftrightarrow> Tag node = ''!!str''"

definition alnum :: regex where
  "alnum = Class False [(CHR ''a'', CHR ''z''), (CHR ''0'', CHR ''9'')]"

definition notColonSpace :: regex where
  "notColonSpace =
     Class True [(CHR '':'', CHR '':''), (CHR 0x09, CHR 0x0A), (CHR 0x0C, CHR 0x0D), (CHR 0x20, CHR 0x20)]"

text \<open>\<^verbatim>\<open>^[a-z0-9]+(_[a-z0-9]+)*$\<close>\<close>

definition reSnake :: regex where
  "reSnake = Seq (Plus alnum) (Star (Seq (Chr (CHR ''_'')) (Plus alnum)))"

text \<open>\<^verbatim>\<open>^registry\.bigbrother\.io\/[^:\s]+:[^:\s]+$\<close>\<close>

definition reImage :: regex where
  "reImage =
     Seq (lit ''registry.bigbrother.io/'')
       (Seq (Plus notColonSpace) (Seq (Chr (CHR '':'')) (Plus notColonSpace)))"

text \<open>\<^verbatim>\<open>^[0-9]+(Gi|Mi|Ki)$\<close>\<close>

definition reMem :: regex where
  "reMem = Seq (Plus (Class False [(CHR ''0'', CHR ''9'')])) (Alt (lit ''Gi'') (Alt (lit ''Mi'') (lit ''Ki'')))"

text \<open>\<^verbatim>\<open>^/\<close>: not anchored at the end, so any bytes may follow.\<close>

definition reAbs :: regex where
  "reAbs = Seq (Chr (CHR ''/'')) (Star (Class True []))"

definition MatchString :: "regex \<Rightarrow> string \<Rightarrow> bool" where
  "MatchString re s = matches re s"

text \<open>The maps \<^verbatim>\<open>validOS\<close> and \<^verbatim>\<open>validPro\<close>; a missing key reads as false.\<close>

definition validOS :: "string \<Rightarrow> bool" where
  "validOS s \<longleftrightarrow> s = ''linux'' \<or> s = ''windows''"

definition validPro :: "string \<Rightarrow> bool" where
  "validPro s \<longleftrightarrow> s = ''TCP'' \<or> s = ''UDP''"

definition Validator_validateResKV :: "string \<Rightarrow> Node \<Rightarrow> Validator \<Rightarrow> Validator" where
  "Validator_validateResKV name node =
     (if Kind node \<noteq> MappingNode then Validator_fail (Line node) (name @ '' must be object'')
      else
        let m = mapify node in
        steps
         [case m ''cpu'' of
           None \<Rightarrow> id
         | Some cpu \<Rightarrow>
             if \<not> isInt cpu then Validator_fail (Line cpu) ''cpu must be int'' else id,
          case m ''memory'' of
           None \<Rightarrow> id
         | Some mem \<Rightarrow>
             if \<not> isString mem then Validator_fail (Line mem) ''memory must be string''
             else if \<not> MatchString reMem (Value mem)
               then Validator_fail (Line mem) (''memory has invalid format '' @ quoted (Value mem))
             else id])"

definition Validator_validateResources :: "Node \<Rightarrow> Validator \<Rightarrow> Validator" where
  "Validator_validateResources node =
     (if Kind node \<noteq> MappingNode then Validator_fail (Line node) ''resources must be object''
      else
        let m = mapify node in
        steps
         [case m ''limits'' of None \<Rightarrow> id | Some lim \<Rightarrow> Validator_validateResKV ''limits'' lim,
          case m ''requests'' of None \<Rightarrow> id | Some req \<Rightarrow> Validator_validateResKV ''requests'' req])"

definition Validator_validateProbe :: "Node \<Rightarrow> Validator \<Rightarrow> Validator" where
  "Validator_validateProbe node =
     (if Kind node \<noteq> MappingNode then Validator_fail (Line node) ''readinessProbe must be object''
      else
        let m = mapify node in
        case m ''httpGet'' of
          None \<Rightarrow> Validator_fail (Line node) ''httpGet is required''
        | Some hg \<Rightarrow>
            if Kind hg \<noteq> MappingNode then Validator_fail (Line hg) ''httpGet must be object''
            else
              let obj = mapify hg in
              steps
               [case obj ''path'' of
                 None \<Rightarrow> Validator_fail (Line hg) ''path is required''
               | Some p \<Rightarrow>
                   if \<not> isString p then Validator_fail (Line p) ''path must be string''
                   else if \<not> MatchString reAbs (Value p)
                     then Validator_fail (Line p) (''path has invalid format '' @ quoted (Value p))
                   else id,
                case obj ''port'' of
                 None \<Rightarrow> Validator_fail (Line hg) ''port is required''
               | Some prt \<Rightarrow>
                   if \<not> isInt prt then Validator_fail (Line prt) ''port must be int''
                   else
                     let x = fst (Atoi (Value prt)) in
                     if x \<le> 0 \<or> x \<ge> 65536 then Validator_fail (Line prt) ''port value out of range''
                     else id])"

definition Validator_validatePort :: "Node \<Rightarrow> Validator \<Rightarrow> Validator" where
  "Validator_validatePort node =
     (if Kind node \<noteq> MappingNode then Validator_fail (Line node) ''ports item must be object''
      else
        let m = mapify node in
        steps
         [case m ''containerPort'' of
           None \<Rightarrow> Validator_fail (Line node) ''containerPort is required''
         | Some cp \<Rightarrow>
             if \<not> isInt cp then Validator_fail (Line cp) ''containerPort must be int''
             else
               let port = fst (Atoi (Value cp)) in
               if port \<le> 0 \<or> port \<ge> 65536
                 then Validator_fail (Line cp) ''containerPort value out of range''
               else id,
          case m ''protocol'' of
           None \<Rightarrow> id
         | Some proto \<Rightarrow>
             if \<not> isString proto then Validator_fail (Line proto) ''protocol must be string''
             else if \<not> validPro (Value proto)
               then Validator_fail (Line proto) (''protocol has unsupported value '' @ quoted (Value proto))
             else id])"

definition Validator_validateContainer :: "Node \<Rightarrow> Validator \<Rightarrow> Validator" where
  "Validator_validateContainer node =
     (if Kind node \<noteq> MappingNode then Validator_fail (Line node) ''container must be object''
      else
        let m = mapify node in
        steps
         [case m ''name'' of
           None \<Rightarrow> Validator_fail (Line node) ''name is required''
         | Some nm \<Rightarrow>
             if \<not> isString nm then Validator_fail (Line nm) ''name must be string''
             else if \<not> MatchString reSnake (Value nm)
               then Validator_fail (Line nm) (''name has invalid format '' @ quoted (Value nm))
             else id,
          case m ''image'' of
           None \<Rightarrow> Validator_fail (Line node) ''image is required''
         | Some img \<Rightarrow>
             if \<not> isString img then Validator_fail (Line img) ''image must be string''
             else if \<not> MatchString reImage (Value img)
               then Validator_fail (Line img) (''image has invalid format '' @ quoted (Value img))
             else id,
          case m ''ports'' of
           None \<Rightarrow> id
         | Some prt \<Rightarrow>
             if Kind prt \<noteq> SequenceNode then Validator_fail (Line prt) ''ports must be array''
             else fold Validator_validatePort (Content prt),
          case m ''readinessProbe'' of None \<Rightarrow> id | Some rp \<Rightarrow> Validator_validateProbe rp,
          case m ''livenessProbe'' of None \<Rightarrow> id | Some lp \<Rightarrow> Validator_validateProbe lp,
          case m ''resources'' of
            None \<Rightarrow> Validator_fail (Line node) ''resources is required''
          | Some res \<Rightarrow> Validator_validateResources res])"

text \<open>The block of \<^verbatim>\<open>validateSpec\<close> under the comment \<^verbatim>\<open>os optional: scalar or object\<close>.\<close>

definition Validator_validateSpec_os :: "(string \<rightharpoonup> Node) \<Rightarrow> Validator \<Rightarrow> Validator" where
  "Validator_validateSpec_os m =
     (case m ''os'' of
        None \<Rightarrow> id
      | Some osn \<Rightarrow>
          if Kind osn = ScalarNode then
            (if \<not> validOS (Value osn)
               then Validator_fail (Line osn) (''os has unsupported value '' @ quoted (Value osn))
             else id)
          else if Kind osn = MappingNode then
            (let obj = mapify osn in
             case obj ''name'' of
               None \<Rightarrow> Validator_fail (Line osn) ''name is required''
             | Some n \<Rightarrow>
                 if \<not> isString n then Validator_fail (Line n) ''name must be string''
                 else if \<not> validOS (Value n)
                   then Validator_fail (Line n) (''name has unsupported value '' @ quoted (Value n))
                 else id)
          else Validator_fail (Line osn) ''os must be string or object'')"

text \<open>The block of \<^verbatim>\<open>validateSpec\<close> under the comment \<^verbatim>\<open>containers required\<close>.\<close>

definition Validator_validateSpec_containers ::
  "Node \<Rightarrow> (string \<rightharpoonup> Node) \<Rightarrow> Validator \<Rightarrow> Validator" where
  "Validator_validateSpec_containers node m =
     (case m ''containers'' of
        None \<Rightarrow> Validator_fail (Line node) ''containers is required''
      | Some cn \<Rightarrow>
          if Kind cn \<noteq> SequenceNode then Validator_fail (Line cn) ''containers must be array''
          else fold Validator_validateContainer (Content cn))"

definition Validator_validateSpec :: "Node \<Rightarrow> Validator \<Rightarrow> Validator" where
  "Validator_validateSpec node =
     (if Kind node \<noteq> MappingNode then Validator_fail (Line node) ''spec must be object''
      else
        let m = mapify node in
        steps [Validator_validateSpec_os m, Validator_validateSpec_containers node m])"

text \<open>The loop of \<^verbatim>\<open>validateMetadata\<close> over the pairs of \<^verbatim>\<open>labels\<close>.\<close>

fun Validator_validateMetadata_labels :: "Node list \<Rightarrow> Validator \<Rightarrow> Validator" where
  "Validator_validateMetadata_labels (k # val # rest) =
     steps
      [if Tag k \<noteq> ''!!str'' then Validator_fail (Line k) ''labels key must be string'' else id,
       if Tag val \<noteq> ''!!str'' then Validator_fail (Line val) ''labels value must be string'' else id,
       Validator_validateMetadata_labels rest]"
| "Validator_validateMetadata_labels rest = id"

definition Validator_validateMetadata :: "Node \<Rightarrow> Validator \<Rightarrow> Validator" where
  "Validator_validateMetadata node =
     (if Kind node \<noteq> MappingNode then Validator_fail (Line node) ''metadata must be object''
      else
        let m = mapify node in
        steps
         [case m ''name'' of
           None \<Rightarrow> Validator_fail (Line node) ''name is required''
         | Some nm \<Rightarrow>
             if \<not> isString nm then Validator_fail (Line nm) ''name must be string''
             else if TrimSpace_empty (Value nm) then Validator_fail (Line nm) ''name is required''
             else id,
          case m ''namespace'' of
           None \<Rightarrow> id
         | Some ns \<Rightarrow>
             if \<not> isString ns then Validator_fail (Line ns) ''namespace must be string'' else id,
          case m ''labels'' of
           None \<Rightarrow> id
         | Some lbs \<Rightarrow>
             if Kind lbs \<noteq> MappingNode then Validator_fail (Line lbs) ''labels must be object''
             else Validator_validateMetadata_labels (Content lbs)])"

definition Validator_validateRoot :: "Node \<Rightarrow> Validator \<Rightarrow> Validator" where
  "Validator_validateRoot root =
     (let doc = (if Kind root = DocumentNode \<and> length (Content root) > 0
                 then hd (Content root) else root)
      in
        if Kind doc \<noteq> MappingNode then Validator_fail (Line doc) ''top-level must be a mapping''
        else
          let m = mapify doc in
          steps
           [case m ''apiVersion'' of
             None \<Rightarrow> Validator_fail (Line doc) ''apiVersion is required''
           | Some api \<Rightarrow>
               if \<not> isString api then Validator_fail (Line api) ''apiVersion must be string''
               else if Value api \<noteq> ''v1''
                 then Validator_fail (Line api) (''apiVersion has unsupported value '' @ quoted (Value api))
               else id,
            case m ''kind'' of
             None \<Rightarrow> Validator_fail (Line doc) ''kind is required''
           | Some kd \<Rightarrow>
               if \<not> isString kd then Validator_fail (Line kd) ''kind must be string''
               else if Value kd \<noteq> ''Pod''
                 then Validator_fail (Line kd) (''kind has unsupported value '' @ quoted (Value kd))
               else id,
            case m ''metadata'' of
              None \<Rightarrow> Validator_fail (Line doc) ''metadata is required''
            | Some meta \<Rightarrow> Validator_validateMetadata meta,
            case m ''spec'' of
              None \<Rightarrow> Validator_fail (Line doc) ''spec is required''
            | Some spec \<Rightarrow> Validator_validateSpec spec])"

text \<open>
  \<^verbatim>\<open>main\<close> of the first program, from the parsed document on: \<open>base\<close> is
  \<^verbatim>\<open>filepath.Base(path)\<close>. The result is the standard output and the exit code
  (the usage, read and parse failures, which exit with 2, happen before).
\<close>

definition newValidator :: "string \<Rightarrow> Validator" where
  "newValidator base = \<lparr>filename = base, errs = 0, stdout = []\<rparr>"

definition main_acc :: "string \<Rightarrow> Node \<Rightarrow> string list \<times> int" where
  "main_acc base root =
     (let v = Validator_validateRoot root (newValidator base)
      in (stdout v, if errs v > 0 then 1 else 0))"

section \<open>The fail-fast validator (second program of \<^verbatim>\<open>main.go\<close>)\<close>

text \<open>
  A \<^verbatim>\<open>validationError\<close> carries an optional line (the nil pointer is \<open>None\<close>) and a
  message. A function returning \<^verbatim>\<open>error\<close> returns \<open>Ret None\<close> for nil and
  \<open>Ret (Some e)\<close> for an error; \<open>Panic\<close> is the run-time panic of an index out of
  range, which \<^verbatim>\<open>getMapValue\<close> and \<^verbatim>\<open>validateResourceMap\<close> raise on a mapping with
  an odd number of children.
\<close>

record validationError =
  line :: "int option"
  msg :: string

datatype 'a outcome = Panic | Ret 'a

type_synonym result = "validationError option outcome"

text \<open>
  \<open>check e k\<close> and \<open>andThen r k\<close> are the statement
  \<^verbatim>\<open>if err := ...; err != nil { return err }\<close> followed by \<open>k\<close>; \<open>lookup r k\<close> passes the
  two results of \<^verbatim>\<open>getMapValue\<close> on.
\<close>

definition check :: "validationError option \<Rightarrow> result \<Rightarrow> result" where
  "check e k = (case e of Some err \<Rightarrow> Ret (Some err) | None \<Rightarrow> k)"

definition andThen :: "result \<Rightarrow> result \<Rightarrow> result" where
  "andThen r k = (case r of Panic \<Rightarrow> Panic | Ret (Some err) \<Rightarrow> Ret (Some err) | Ret None \<Rightarrow> k)"

definition lookup :: "Node option outcome \<Rightarrow> (Node option \<Rightarrow> result) \<Rightarrow> result" where
  "lookup r k = (case r of Panic \<Rightarrow> Panic | Ret x \<Rightarrow> k x)"

definition required :: "string \<Rightarrow> result" where
  "required field = Ret (Some \<lparr>line = None, msg = field @ '' is required''\<rparr>)"

definition failAt :: "Node \<Rightarrow> string \<Rightarrow> result" where
  "failAt node m = Ret (Some \<lparr>line = Some (Line node), msg = m\<rparr>)"

fun getMapValue_loop :: "Node list \<Rightarrow> string \<Rightarrow> Node option outcome" where
  "getMapValue_loop [] key = Ret None"
| "getMapValue_loop [k] key = Panic"
| "getMapValue_loop (k # v # rest) key =
     (if Value k = key then Ret (Some v) else getMapValue_loop rest key)"

definition getMapValue :: "Node \<Rightarrow> string \<Rightarrow> Node option outcome" where
  "getMapValue m key =
     (if Kind m \<noteq> MappingNode then Ret None else getMapValue_loop (Content m) key)"

definition ensureString :: "Node \<Rightarrow> string \<Rightarrow> validationError option" where
  "ensureString node field =
     (if Kind node \<noteq> ScalarNode \<or> Tag node \<noteq> ''!!str''
        then Some \<lparr>line = Some (Line node), msg = field @ '' must be string''\<rparr>
      else None)"

definition ensureInt :: "Node \<Rightarrow> string \<Rightarrow> validationError option" where
  "ensureInt node field =
     (if Kind node \<noteq> ScalarNode \<or> Tag node \<noteq> ''!!int''
        then Some \<lparr>line = Some (Line node), msg = field @ '' must be int''\<rparr>
      else if snd (Atoi (Value node)) \<noteq> None
        then Some \<lparr>line = Some (Line node), msg = field @ '' must be int''\<rparr>
      else None)"

text \<open>
  The loop \<^verbatim>\<open>for i, r := range s\<close> of \<^verbatim>\<open>isSnakeCase\<close>; \<open>i\<close> is the byte index and \<open>n\<close>
  is \<^verbatim>\<open>len(s)\<close>. A byte of a multi-byte rune is outside every case, as the rune is.
\<close>

fun isSnakeCase_loop :: "nat \<Rightarrow> nat \<Rightarrow> string \<Rightarrow> bool" where
  "isSnakeCase_loop i n [] = True"
| "isSnakeCase_loop i n (r # rs) =
     (if CHR ''a'' \<le> r \<and> r \<le> CHR ''z'' then isSnakeCase_loop (i + 1) n rs
      else if CHR ''0'' \<le> r \<and> r \<le> CHR ''9'' then isSnakeCase_loop (i + 1) n rs
      else if r = CHR ''_'' \<and> i \<noteq> 0 \<and> int i \<noteq> int n - 1 then isSnakeCase_loop (i + 1) n rs
      else False)"

definition isSnakeCase :: "string \<Rightarrow> bool" where
  "isSnakeCase s = (if s = [] then False else isSnakeCase_loop 0 (length s) s)"

text \<open>\<^verbatim>\<open>strings.LastIndex\<close> for a separator of one byte; \<open>- 1\<close> when it does not occur.\<close>

fun LastIndex_from :: "int \<Rightarrow> int \<Rightarrow> string \<Rightarrow> char \<Rightarrow> int" where
  "LastIndex_from i found [] c = found"
| "LastIndex_from i found (x # xs) c = LastIndex_from (i + 1) (if x = c then i else found) xs c"

definition LastIndex :: "string \<Rightarrow> char \<Rightarrow> int" where
  "LastIndex s c = LastIndex_from 0 (- 1) s c"

definition validateImage :: "Node \<Rightarrow> validationError option" where
  "validateImage node =
     (let val = Value node in
      if \<not> prefix ''registry.bigbrother.io/'' val
        then Some \<lparr>line = Some (Line node), msg = ''image has invalid format '' @ quoted val\<rparr>
      else
        let slash = LastIndex val (CHR ''/'');
            colon = LastIndex val (CHR '':'')
        in if colon = - 1 \<or> colon < slash + 1 \<or> colon = int (length val) - 1
             then Some \<lparr>line = Some (Line node), msg = ''image has invalid format '' @ quoted val\<rparr>
           else None)"

definition isValidMemory :: "string \<Rightarrow> bool" where
  "isValidMemory s =
     (if length s < 3 then False
      else
        let unit = drop (length s - 2) s in
        if unit \<noteq> ''Gi'' \<and> unit \<noteq> ''Mi'' \<and> unit \<noteq> ''Ki'' then False
        else
          let numPart = take (length s - 2) s in
          if numPart = [] then False else snd (Atoi numPart) = None)"

fun validateResourceMap_loop :: "Node list \<Rightarrow> result" where
  "validateResourceMap_loop [] = Ret None"
| "validateResourceMap_loop [k] = Panic"
| "validateResourceMap_loop (k # v # rest) =
     andThen
       (if Value k = ''cpu'' then check (ensureInt v ''cpu'') (Ret None)
        else if Value k = ''memory'' then
          check (ensureString v ''memory'')
            (if \<not> isValidMemory (Value v)
               then failAt v (''memory has invalid format '' @ quoted (Value v))
             else Ret None)
        else Ret None)
       (validateResourceMap_loop rest)"

definition validateResourceMap :: "Node \<Rightarrow> result" where
  "validateResourceMap node = validateResourceMap_loop (Content node)"

definition validateResources :: "Node \<Rightarrow> result" where
  "validateResources node =
     lookup (getMapValue node ''limits'') (\<lambda>limits.
     andThen
       (case limits of
          None \<Rightarrow> Ret None
        | Some limitsNode \<Rightarrow>
            if Kind limitsNode \<noteq> MappingNode then failAt limitsNode ''limits must be object''
            else validateResourceMap limitsNode)
       (lookup (getMapValue node ''requests'') (\<lambda>requests.
        andThen
          (case requests of
             None \<Rightarrow> Ret None
           | Some reqNode \<Rightarrow>
               if Kind reqNode \<noteq> MappingNode then failAt reqNode ''requests must be object''
               else validateResourceMap reqNode)
          (Ret None))))"

definition validateProbe :: "Node \<Rightarrow> result" where
  "validateProbe node =
     lookup (getMapValue node ''httpGet'') (\<lambda>httpGet.
     case httpGet of
       None \<Rightarrow> required ''httpGet''
     | Some httpNode \<Rightarrow>
         if Kind httpNode \<noteq> MappingNode then failAt httpNode ''httpGet must be object''
         else
           lookup (getMapValue httpNode ''path'') (\<lambda>path.
           case path of
             None \<Rightarrow> required ''path''
           | Some pathNode \<Rightarrow>
               check (ensureString pathNode ''path'')
                 (if \<not> prefix ''/'' (Value pathNode)
                    then failAt pathNode (''path has invalid format '' @ quoted (Value pathNode))
                  else
                    lookup (getMapValue httpNode ''port'') (\<lambda>port.
                    case port of
                      None \<Rightarrow> required ''port''
                    | Some portNode \<Rightarrow>
                        check (ensureInt portNode ''port'')
                          (let portVal = fst (Atoi (Value portNode)) in
                           if portVal \<le> 0 \<or> portVal \<ge> 65536
                             then failAt portNode ''port value out of range''
                           else Ret None)))))"

definition validateContainerPort :: "Node \<Rightarrow> result" where
  "validateContainerPort node =
     lookup (getMapValue node ''containerPort'') (\<lambda>containerPort.
     case containerPort of
       None \<Rightarrow> required ''containerPort''
     | Some cpNode \<Rightarrow>
         check (ensureInt cpNode ''containerPort'')
           (let val = fst (Atoi (Value cpNode)) in
            if val \<le> 0 \<or> val \<ge> 65536 then failAt cpNode ''containerPort value out of range''
            else
              lookup (getMapValue node ''protocol'') (\<lambda>protocol.
              case protocol of
                None \<Rightarrow> Ret None
              | Some protoNode \<Rightarrow>
                  check (ensureString protoNode ''protocol'')
                    (if Value protoNode \<noteq> ''TCP'' \<and> Value protoNode \<noteq> ''UDP''
                       then failAt protoNode
                              (''protocol has unsupported value '' @ quoted (Value protoNode))
                     else Ret None))))"

text \<open>The loop of \<^verbatim>\<open>validateContainer\<close> over the elements of \<^verbatim>\<open>ports\<close>.\<close>

fun validateContainer_ports :: "Node list \<Rightarrow> result" where
  "validateContainer_ports [] = Ret None"
| "validateContainer_ports (p # ps) =
     (if Kind p \<noteq> MappingNode then failAt p ''ports must be object''
      else andThen (validateContainerPort p) (validateContainer_ports ps))"

definition validateContainer :: "Node \<Rightarrow> result" where
  "validateContainer node =
     lookup (getMapValue node ''name'') (\<lambda>name.
     case name of
       None \<Rightarrow> required ''name''
     | Some nameNode \<Rightarrow>
     check (ensureString nameNode ''name'')
     (if \<not> isSnakeCase (Value nameNode)
        then failAt nameNode (''name has invalid format '' @ quoted (Value nameNode))
      else
     lookup (getMapValue node ''image'') (\<lambda>image.
     case image of
       None \<Rightarrow> required ''image''
     | Some imageNode \<Rightarrow>
     check (ensureString imageNode ''image'')
     (check (validateImage imageNode)
     (lookup (getMapValue node ''ports'') (\<lambda>ports.
     andThen
       (case ports of
          None \<Rightarrow> Ret None
        | Some portsNode \<Rightarrow>
            if Kind portsNode \<noteq> SequenceNode then failAt portsNode ''ports must be array''
            else validateContainer_ports (Content portsNode))
     (lookup (getMapValue node ''readinessProbe'') (\<lambda>readinessProbe.
     andThen
       (case readinessProbe of
          None \<Rightarrow> Ret None
        | Some rpNode \<Rightarrow>
            if Kind rpNode \<noteq> MappingNode then failAt rpNode ''readinessProbe must be object''
            else validateProbe rpNode)
     (lookup (getMapValue node ''livenessProbe'') (\<lambda>livenessProbe.
     andThen
       (case livenessProbe of
          None \<Rightarrow> Ret None
        | Some lpNode \<Rightarrow>
            if Kind lpNode \<noteq> MappingNode then failAt lpNode ''livenessProbe must be object''
            else validateProbe lpNode)
     (lookup (getMapValue node ''resources'') (\<lambda>resources.
     case resources of
       None \<Rightarrow> required ''resources''
     | Some resNode \<Rightarrow>
         if Kind resNode \<noteq> MappingNode then failAt resNode ''resources must be object''
         else andThen (validateResources resNode) (Ret None)))))))))))))"

text \<open>The loop of \<^verbatim>\<open>validateSpec\<close> over the elements of \<^verbatim>\<open>containers\<close>.\<close>

fun validateSpec_loop :: "Node list \<Rightarrow> result" where
  "validateSpec_loop [] = Ret None"
| "validateSpec_loop (c # cs) =
     (if Kind c \<noteq> MappingNode then failAt c ''container must be object''
      else andThen (validateContainer c) (validateSpec_loop cs))"

text \<open>
  The two blocks of \<^verbatim>\<open>validateSpec\<close>, under its comments on \<^verbatim>\<open>os\<close> and on
  \<^verbatim>\<open>containers\<close>; the first falls through to the second with \<open>Ret None\<close>.
\<close>

definition validateSpec_os :: "Node \<Rightarrow> result" where
  "validateSpec_os node =
     lookup (getMapValue node ''os'') (\<lambda>os.
     case os of
       None \<Rightarrow> Ret None
     | Some osNode \<Rightarrow>
         check (ensureString osNode ''os'')
           (if Value osNode \<noteq> ''linux'' \<and> Value osNode \<noteq> ''windows''
              then failAt osNode (''os has unsupported value '' @ quoted (Value osNode))
            else Ret None))"

definition validateSpec_containers :: "Node \<Rightarrow> result" where
  "validateSpec_containers node =
     lookup (getMapValue node ''containers'') (\<lambda>containers.
     case containers of
       None \<Rightarrow> required ''containers''
     | Some containersNode \<Rightarrow>
         if Kind containersNode \<noteq> SequenceNode then failAt containersNode ''containers must be array''
         else if length (Content containersNode) = 0
           then failAt containersNode ''containers value out of range''
         else validateSpec_loop (Content containersNode))"

definition validateSpec :: "Node \<Rightarrow> result" where
  "validateSpec node = andThen (validateSpec_os node) (validateSpec_containers node)"

definition validateMetadata :: "Node \<Rightarrow> result" where
  "validateMetadata node =
     lookup (getMapValue node ''name'') (\<lambda>name.
     case name of
       None \<Rightarrow> required ''name''
     | Some nameNode \<Rightarrow>
     check (ensureString nameNode ''name'')
     (lookup (getMapValue node ''namespace'') (\<lambda>namespace.
     andThen
       (case namespace of
          None \<Rightarrow> Ret None
        | Some nsNode \<Rightarrow> check (ensureString nsNode ''namespace'') (Ret None))
     (lookup (getMapValue node ''labels'') (\<lambda>labels.
     case labels of
       None \<Rightarrow> Ret None
     | Some labelsNode \<Rightarrow>
         if Kind labelsNode \<noteq> MappingNode then failAt labelsNode ''labels must be object''
         else Ret None)))))"

definition validatePod :: "Node \<Rightarrow> result" where
  "validatePod doc =
     (if Kind doc \<noteq> MappingNode then failAt doc ''root must be object''
      else
     lookup (getMapValue doc ''apiVersion'') (\<lambda>apiVersion.
     case apiVersion of
       None \<Rightarrow> required ''apiVersion''
     | Some apiVerNode \<Rightarrow>
     check (ensureString apiVerNode ''apiVersion'')
     (if Value apiVerNode \<noteq> ''v1''
        then failAt apiVerNode (''apiVersion has unsupported value '' @ quoted (Value apiVerNode))
      else
     lookup (getMapValue doc ''kind'') (\<lambda>kind.
     case kind of
       None \<Rightarrow> required ''kind''
     | Some kindNode \<Rightarrow>
     check (ensureString kindNode ''kind'')
     (if Value kindNode \<noteq> ''Pod''
        then failAt kindNode (''kind has unsupported value '' @ quoted (Value kindNode))
      else
     lookup (getMapValue doc ''metadata'') (\<lambda>metadata.
     case metadata of
       None \<Rightarrow> required ''metadata''
     | Some metaNode \<Rightarrow>
     if Kind metaNode \<noteq> MappingNode then failAt metaNode ''metadata must be object''
     else
     andThen (validateMetadata metaNode)
     (lookup (getMapValue doc ''spec'') (\<lambda>spec.
     case spec of
       None \<Rightarrow> required ''spec''
     | Some specNode \<Rightarrow>
         if Kind specNode \<noteq> MappingNode then failAt specNode ''spec must be object''
         else validateSpec specNode))))))))"

text \<open>
  \<^verbatim>\<open>run\<close> from the parsed document on (the read and parse failures happen before), and
  the lines \<^verbatim>\<open>main\<close> writes to the standard error with its exit code.
\<close>

definition run :: "Node \<Rightarrow> result" where
  "run root =
     (if length (Content root) = 0 then required ''apiVersion''
      else validatePod (hd (Content root)))"

definition render :: "string \<Rightarrow> validationError \<Rightarrow> string" where
  "render path vErr =
     (case line vErr of
        Some ln \<Rightarrow> path @ '':'' @ itoa ln @ '' '' @ msg vErr
      | None \<Rightarrow> path @ '': '' @ msg vErr)"

definition main_ff :: "string \<Rightarrow> Node \<Rightarrow> (string list \<times> int) outcome" where
  "main_ff path root =
     (case run root of
        Panic \<Rightarrow> Panic
      | Ret (Some vErr) \<Rightarrow> Ret ([render path vErr], 1)
      | Ret None \<Rightarrow> Ret ([], 0))"

section \<open>Definitions used in the statements and proofs\<close>

subsection \<open>What the accumulating validator prints\<close>

text \<open>
  \<open>emit ls\<close> is a sequence of calls of \<^verbatim>\<open>fail\<close>, and \<open>logs f\<close> says that the
  transformer \<open>f\<close> is such a sequence, whatever the state it starts from.
\<close>

definition emit :: "(int \<times> string) list \<Rightarrow> Validator \<Rightarrow> Validator" where
  "emit ls = fold (\<lambda>(l, m). Validator_fail l m) ls"

definition logs :: "(Validator \<Rightarrow> Validator) \<Rightarrow> bool" where
  "logs f \<longleftrightarrow> (\<exists>ls. f = emit ls)"

definition printed :: "string \<Rightarrow> int \<times> string \<Rightarrow> string" where
  "printed f = (\<lambda>(l, m). f @ '':'' @ itoa l @ '' '' @ m)"

subsection \<open>The field accessor in the words of the specification\<close>

text \<open>
  \<open>pairs\<close> are the key/value pairs of a mapping in order, and \<open>valuesFor P cs\<close> the values
  whose key satisfies \<open>P\<close>. \<open>spec_field\<close> follows section 4.1 of the specification: absent
  on a node that is no mapping, else the value paired with the first scalar key equal to
  the requested one.
\<close>

fun pairs :: "Node list \<Rightarrow> (Node \<times> Node) list" where
  "pairs (k # v # rest) = (k, v) # pairs rest"
| "pairs rest = []"

definition valuesFor :: "(Node \<Rightarrow> bool) \<Rightarrow> Node list \<Rightarrow> Node list" where
  "valuesFor P cs = map snd (filter (\<lambda>(k, v). P k) (pairs cs))"

fun spec_field_scan :: "Node list \<Rightarrow> string \<Rightarrow> Node option" where
  "spec_field_scan (k # v # rest) key =
     (if Kind k = ScalarNode \<and> Value k = key then Some v else spec_field_scan rest key)"
| "spec_field_scan rest key = None"

definition spec_field :: "Node \<Rightarrow> string \<Rightarrow> Node option" where
  "spec_field node key =
     (if Kind node \<noteq> MappingNode then None else spec_field_scan (Content node) key)"

subsection \<open>Violations with and without a line\<close>



subsection \<open>The language of a regular expression\<close>

text \<open>
  The strings an expression denotes, against which the matcher by derivatives is proved,
  and the two name checks character by character: \<open>snakeWord\<close> scans words of
  \<open>isAlnum\<close> bytes separated by single underscores, \<open>nameChar\<close> is a byte a name may
  contain, and \<open>noDouble\<close> excludes two underscores in a row.
\<close>

inductive_set star :: "string set \<Rightarrow> string set" for A :: "string set" where
  star_Nil: "[] \<in> star A"
| star_app: "u \<in> A \<Longrightarrow> v \<in> star A \<Longrightarrow> u @ v \<in> star A"

definition conc :: "string set \<Rightarrow> string set \<Rightarrow> string set" where
  "conc A B = {u @ v | u v. u \<in> A \<and> v \<in> B}"

fun lang :: "regex \<Rightarrow> string set" where
  "lang Never = {}"
| "lang Eps = {[]}"
| "lang (Chr c) = {[c]}"
| "lang (Class neg rs) = {[c] | c. inClass neg rs c}"
| "lang (Alt r s) = lang r \<union> lang s"
| "lang (Seq r s) = conc (lang r) (lang s)"
| "lang (Star r) = star (lang r)"
| "lang (Plus r) = conc (lang r) (star (lang r))"

definition isAlnum :: "char \<Rightarrow> bool" where
  "isAlnum c \<longleftrightarrow> (CHR ''a'' \<le> c \<and> c \<le> CHR ''z'') \<or> (CHR ''0'' \<le> c \<and> c \<le> CHR ''9'')"

fun snakeWord :: "string \<Rightarrow> bool" and snakeRest :: "string \<Rightarrow> bool" where
  "snakeWord [] = False"
| "snakeWord (c # cs) = (isAlnum c \<and> snakeRest cs)"
| "snakeRest [] = True"
| "snakeRest (c # cs) = (if isAlnum c then snakeRest cs else c = CHR ''_'' \<and> snakeWord cs)"

fun noDouble :: "string \<Rightarrow> bool" where
  "noDouble (a # b # cs) = (\<not> (a = CHR ''_'' \<and> b = CHR ''_'') \<and> noDouble (b # cs))"
| "noDouble cs = True"

definition nameChar :: "char \<Rightarrow> bool" where
  "nameChar c \<longleftrightarrow> isAlnum c \<or> c = CHR ''_''"

subsection \<open>Trees of the parser\<close>


subsection \<open>Example documents\<close>

text \<open>
  Trees as the parser builds them: a scalar with its resolved tag, a mapping with
  alternating keys and values, a sequence, and the document node around the top node.
\<close>

definition strNode :: "string \<Rightarrow> int \<Rightarrow> Node" where
  "strNode s l = Node ScalarNode ''!!str'' s [] l"

definition intNode :: "string \<Rightarrow> int \<Rightarrow> Node" where
  "intNode s l = Node ScalarNode ''!!int'' s [] l"

definition mapNode :: "Node list \<Rightarrow> int \<Rightarrow> Node" where
  "mapNode cs l = Node MappingNode ''!!map'' [] cs l"

definition seqNode :: "Node list \<Rightarrow> int \<Rightarrow> Node" where
  "seqNode cs l = Node SequenceNode ''!!seq'' [] cs l"

definition docNode :: "Node \<Rightarrow> Node" where
  "docNode n = Node DocumentNode [] [] [n] 1"

text \<open>A container with the given name and memory limit, starting at line \<open>l\<close>.\<close>

definition exContainer :: "string \<Rightarrow> string \<Rightarrow> int \<Rightarrow> Node" where
  "exContainer name mem l =
     mapNode
       [strNode ''name'' l, strNode name l,
        strNode ''image'' (l + 1), strNode ''registry.bigbrother.io/app:1.0'' (l + 1),
        strNode ''resources'' (l + 2),
        mapNode [strNode ''limits'' (l + 3),
                 mapNode [strNode ''memory'' (l + 4), strNode mem (l + 4)] (l + 4)] (l + 3)] l"

text \<open>A manifest with valid top-level fields and metadata around the given \<^verbatim>\<open>spec\<close>.\<close>

definition exPod :: "Node \<Rightarrow> Node" where
  "exPod spec =
     docNode (mapNode
       [strNode ''apiVersion'' 1, strNode ''v1'' 1,
        strNode ''kind'' 2, strNode ''Pod'' 2,
        strNode ''metadata'' 3, mapNode [strNode ''name'' 4, strNode ''demo'' 4] 4,
        strNode ''spec'' 5, spec] 1)"

text \<open>\<^verbatim>\<open>containers: []\<close>\<close>

definition exEmptyContainers :: Node where
  "exEmptyContainers = exPod (mapNode [strNode ''containers'' 6, seqNode [] 6] 6)"

text \<open>A container whose memory limit is \<^verbatim>\<open>-5Gi\<close>.\<close>

definition exSignedMemory :: Node where
  "exSignedMemory =
     exPod (mapNode [strNode ''containers'' 6, seqNode [exContainer ''web'' ''-5Gi'' 7] 7] 6)"

text \<open>A container named \<^verbatim>\<open>a__b\<close>.\<close>

definition exDoubleUnderscore :: Node where
  "exDoubleUnderscore =
     exPod (mapNode [strNode ''containers'' 6, seqNode [exContainer ''a__b'' ''512Mi'' 7] 7] 6)"




text \<open>A mapping with the key \<^verbatim>\<open>name\<close> twice.\<close>

definition exDupKeys :: Node where
  "exDupKeys =
     mapNode [strNode ''name'' 1, strNode ''first'' 1, strNode ''name'' 2, strNode ''second'' 2] 1"

text \<open>An element of \<^verbatim>\<open>ports\<close> and a probe with the given port value.\<close>

definition exPort :: "Node \<Rightarrow> Node" where
  "exPort cp = mapNode [strNode ''containerPort'' 3, cp] 3"

definition exHttpGet :: "Node \<Rightarrow> Node" where
  "exHttpGet cp = mapNode [strNode ''path'' 5, strNode ''/health'' 5, strNode ''port'' 6, cp] 5"

definition exProbe :: "Node \<Rightarrow> Node" where
  "exProbe cp = mapNode [strNode ''httpGet'' 4, exHttpGet cp] 4"

text \<open>A \<^verbatim>\<open>spec\<close> with two malformed containers: a scalar, then an empty mapping.\<close>

definition exTwoBad :: Node where
  "exTwoBad =
     mapNode [strNode ''containers'' 6, seqNode [strNode ''oops'' 7, mapNode [] 8] 7] 6"

text \<open>A container whose \<^verbatim>\<open>livenessProbe\<close> is a scalar.\<close>

definition exLiveness :: Node where
  "exLiveness =
     mapNode
       [strNode ''name'' 7, strNode ''web'' 7,
        strNode ''image'' 8, strNode ''registry.bigbrother.io/app:1.0'' 8,
        strNode ''livenessProbe'' 9, strNode ''yes'' 9,
        strNode ''resources'' 10, mapNode [] 10] 7"

section \<open>The accumulating validator only ever calls \<^verbatim>\<open>fail\<close>\<close>

lemma steps_Nil [simp]: "steps [] v = v"
  by (simp add: steps_def)

lemma steps_Cons [simp]: "steps (b # bs) v = steps bs (b v)"
  by (simp add: steps_def)

lemma emit_Nil: "emit [] = id"
  by (simp add: emit_def fun_eq_iff)

lemma emit_append: "emit (xs @ ys) v = emit ys (emit xs v)"
  by (simp add: emit_def)

lemma emit_single: "emit [(l, m)] = Validator_fail l m"
  by (simp add: emit_def fun_eq_iff)

lemma filename_emit: "filename (emit ls v) = filename v"
  by (induction ls arbitrary: v) (simp_all add: emit_def Validator_fail_def split_beta)

lemma stdout_emit: "stdout (emit ls v) = stdout v @ map (printed (filename v)) ls"
proof (induction ls arbitrary: v)
  case Nil
  show ?case by (simp add: emit_def)
next
  case (Cons a ls)
  have "emit (a # ls) v = emit ls (Validator_fail (fst a) (snd a) v)"
    by (simp add: emit_def split_beta)
  then show ?case
    by (simp add: Cons.IH Validator_fail_def printed_def split_beta)
qed

lemma errs_emit: "errs (emit ls v) = errs v + int (length ls)"
proof (induction ls arbitrary: v)
  case Nil
  show ?case by (simp add: emit_def)
next
  case (Cons a ls)
  have "emit (a # ls) v = emit ls (Validator_fail (fst a) (snd a) v)"
    by (simp add: emit_def split_beta)
  then show ?case
    by (simp add: Cons.IH Validator_fail_def)
qed

lemma logs_id: "logs id"
  unfolding logs_def using emit_Nil by metis

lemma logs_fail: "logs (Validator_fail l m)"
  unfolding logs_def using emit_single by metis

lemma logs_comp:
  assumes "logs f" and "logs g"
  shows "logs (\<lambda>v. g (f v))"
proof -
  from assms obtain xs ys where "f = emit xs" and "g = emit ys"
    unfolding logs_def by blast
  then have "(\<lambda>v. g (f v)) = emit (xs @ ys)"
    by (simp add: fun_eq_iff emit_append)
  then show ?thesis
    unfolding logs_def by blast
qed

lemma logs_steps_Nil: "logs (steps [])"
proof -
  have "steps [] = (id :: Validator \<Rightarrow> Validator)"
    by (simp add: fun_eq_iff)
  then show ?thesis by (simp only: logs_id)
qed

lemma logs_steps_Cons:
  assumes "logs b" and "logs (steps bs)"
  shows "logs (steps (b # bs))"
proof -
  have "steps (b # bs) = (\<lambda>v. steps bs (b v))"
    by (simp add: fun_eq_iff)
  with logs_comp [OF assms] show ?thesis by simp
qed

lemma logs_if: "logs f \<Longrightarrow> logs g \<Longrightarrow> logs (if c then f else g)"
  by simp

lemma logs_case_option:
  "logs f \<Longrightarrow> (\<And>x. logs (g x)) \<Longrightarrow> logs (case opt of None \<Rightarrow> f | Some x \<Rightarrow> g x)"
  by (cases opt) simp_all

lemma logs_fold: "(\<And>x. logs (f x)) \<Longrightarrow> logs (fold f xs)"
proof (induction xs)
  case Nil
  have "fold f [] = id"
    by (simp add: fun_eq_iff)
  then show ?case by (simp only: logs_id)
next
  case (Cons x xs)
  have "fold f (x # xs) = (\<lambda>v. fold f xs (f x v))"
    by (simp add: fun_eq_iff)
  with logs_comp [OF Cons.prems Cons.IH [OF Cons.prems]] show ?case by simp
qed

lemmas logs_intros = logs_id logs_fail logs_steps_Nil logs_steps_Cons logs_if logs_case_option
  logs_fold

lemma logs_validateResKV: "logs (Validator_validateResKV name node)"
  unfolding Validator_validateResKV_def Let_def by (intro logs_intros)

lemma logs_validateResources: "logs (Validator_validateResources node)"
  unfolding Validator_validateResources_def Let_def by (intro logs_intros logs_validateResKV)

lemma logs_validateProbe: "logs (Validator_validateProbe node)"
  unfolding Validator_validateProbe_def Let_def by (intro logs_intros)

lemma logs_validatePort: "logs (Validator_validatePort node)"
  unfolding Validator_validatePort_def Let_def by (intro logs_intros)

lemma logs_validateContainer: "logs (Validator_validateContainer node)"
  unfolding Validator_validateContainer_def Let_def
  by (intro logs_intros logs_validatePort logs_validateProbe logs_validateResources)

lemma logs_validateSpec_os: "logs (Validator_validateSpec_os m)"
  unfolding Validator_validateSpec_os_def Let_def by (intro logs_intros)

lemma logs_validateSpec_containers: "logs (Validator_validateSpec_containers node m)"
  unfolding Validator_validateSpec_containers_def by (intro logs_intros logs_validateContainer)

lemma logs_validateSpec: "logs (Validator_validateSpec node)"
  unfolding Validator_validateSpec_def Let_def
  by (intro logs_intros logs_validateSpec_os logs_validateSpec_containers)

lemma logs_validateMetadata_labels: "logs (Validator_validateMetadata_labels xs)"
proof (induction xs rule: Validator_validateMetadata_labels.induct)
  case (1 k val rest)
  show ?case
    unfolding Validator_validateMetadata_labels.simps by (intro logs_intros 1)
qed (simp_all only: Validator_validateMetadata_labels.simps logs_id)

lemma logs_validateMetadata: "logs (Validator_validateMetadata node)"
  unfolding Validator_validateMetadata_def Let_def
  by (intro logs_intros logs_validateMetadata_labels)

lemma logs_validateRoot: "logs (Validator_validateRoot root)"
  unfolding Validator_validateRoot_def Let_def
  by (intro logs_intros logs_validateMetadata logs_validateSpec)


lemma logs_frame:
  assumes "logs g"
  shows "stdout (g v) = stdout v @ stdout (g (newValidator (filename v)))"
    and "errs (g v) = errs v + errs (g (newValidator (filename v)))"
    and "filename (g v) = filename v"
proof -
  from assms obtain ls where g: "g = emit ls"
    unfolding logs_def by blast
  show "stdout (g v) = stdout v @ stdout (g (newValidator (filename v)))"
    by (simp add: g stdout_emit newValidator_def)
  show "errs (g v) = errs v + errs (g (newValidator (filename v)))"
    by (simp add: g errs_emit newValidator_def)
  show "filename (g v) = filename v"
    by (simp add: g filename_emit)
qed

lemma logs_count:
  assumes "logs g"
  shows "errs (g (newValidator f)) = int (length (stdout (g (newValidator f))))"
proof -
  from assms obtain ls where g: "g = emit ls"
    unfolding logs_def by blast
  show ?thesis
    by (simp add: g errs_emit stdout_emit newValidator_def)
qed


lemma stdout_fold:
  assumes "\<And>x. logs (f x)"
  shows "stdout (fold f xs v) =
           stdout v @ concat (map (\<lambda>x. stdout (f x (newValidator (filename v)))) xs)"
proof (induction xs arbitrary: v)
  case Nil
  show ?case by simp
next
  case (Cons x xs)
  have "stdout (fold f (x # xs) v) = stdout (fold f xs (f x v))"
    by simp
  also have "\<dots> = stdout (f x v) @
      concat (map (\<lambda>y. stdout (f y (newValidator (filename (f x v))))) xs)"
    by (rule Cons.IH)
  also have "filename (f x v) = filename v"
    by (rule logs_frame(3) [OF assms])
  also have "stdout (f x v) = stdout v @ stdout (f x (newValidator (filename v)))"
    by (rule logs_frame(1) [OF assms])
  finally show ?case by simp
qed

lemma errs_fold:
  assumes "\<And>x. logs (f x)"
  shows "errs (fold f xs v) =
           errs v + sum_list (map (\<lambda>x. errs (f x (newValidator (filename v)))) xs)"
proof (induction xs arbitrary: v)
  case Nil
  show ?case by simp
next
  case (Cons x xs)
  have "errs (fold f (x # xs) v) = errs (fold f xs (f x v))"
    by simp
  also have "\<dots> = errs (f x v) +
      sum_list (map (\<lambda>y. errs (f y (newValidator (filename (f x v))))) xs)"
    by (rule Cons.IH)
  also have "filename (f x v) = filename v"
    by (rule logs_frame(3) [OF assms])
  also have "errs (f x v) = errs v + errs (f x (newValidator (filename v)))"
    by (rule logs_frame(2) [OF assms])
  finally show ?case by simp
qed

lemma logs_steps: "list_all logs bs \<Longrightarrow> logs (steps bs)"
  by (induction bs) (simp_all add: logs_steps_Nil logs_steps_Cons)

lemma mem_steps:
  assumes "list_all logs bs" and "b \<in> set bs"
    and "\<And>w. filename w = filename v \<Longrightarrow> x \<in> set (stdout (b w))"
  shows "x \<in> set (stdout (steps bs v))"
  using assms
proof (induction bs arbitrary: v)
  case Nil
  then show ?case by simp
next
  case (Cons a bs)
  from Cons.prems(1) have a: "logs a" and rest: "list_all logs bs"
    by simp_all
  show ?case
  proof (cases "b = a")
    case True
    from Cons.prems(3) have "x \<in> set (stdout (a v))"
      by (simp add: True)
    with logs_frame(1) [OF logs_steps [OF rest], of "a v"] show ?thesis
      by simp
  next
    case False
    with Cons.prems(2) have "b \<in> set bs"
      by simp
    moreover have "x \<in> set (stdout (b w))" if "filename w = filename (a v)" for w
      using that Cons.prems(3) [of w] logs_frame(3) [OF a, of v] by simp
    ultimately have "x \<in> set (stdout (steps bs (a v)))"
      by (rule Cons.IH [OF rest])
    then show ?thesis
      by simp
  qed
qed


section \<open>Messages, ports, integers, field access, lines\<close>

lemma last_quoted: "last (xs @ quoted s) = CHR 0x27"
  by (simp add: quoted_def)

lemma line_neq:
  assumes "last m \<noteq> last m'" and "m \<noteq> []" and "m' \<noteq> []"
  shows "a @ m \<noteq> b @ m'"
proof
  assume "a @ m = b @ m'"
  then have "last (a @ m) = last (b @ m')" by simp
  with assms show False by simp
qed

lemma printed_neq:
  assumes "last m \<noteq> last m'" and "m \<noteq> []" and "m' \<noteq> []"
  shows "f @ '':'' @ itoa l @ '' '' @ m \<noteq> f @ '':'' @ itoa l' @ '' '' @ m'"
proof -
  have "last ('':'' @ itoa l @ '' '' @ m) \<noteq> last ('':'' @ itoa l' @ '' '' @ m')"
    using assms by simp
  then show ?thesis
    using line_neq [of "'':'' @ itoa l @ '' '' @ m" "'':'' @ itoa l' @ '' '' @ m'" f f] by simp
qed

lemma quoted_not_Nil: "quoted s \<noteq> []"
  by (simp add: quoted_def)

lemma last_quoted_only: "last (quoted s) = CHR 0x27"
  by (simp add: quoted_def)

lemma append_eq_lastD:
  assumes "a @ m = b @ m'" and "m \<noteq> []" and "m' \<noteq> []"
  shows "last m = last m'"
proof -
  from assms(1) have "last (a @ m) = last (b @ m')" by simp
  with assms(2,3) show ?thesis by simp
qed

lemmas msg_simps = quoted_not_Nil last_quoted_only last_quoted

lemma acc_port_range:
  assumes "Tag cp = ''!!int''" and "Atoi (Value cp) = (p, None)"
    and "Kind node = MappingNode" and "mapify node ''containerPort'' = Some cp"
  shows "(f @ '':'' @ itoa (Line cp) @ '' containerPort value out of range''
            \<in> set (stdout (Validator_validatePort node (newValidator f))))
         = (\<not> (1 \<le> p \<and> p \<le> 65535))"
  using assms
  by (auto simp add: Validator_validatePort_def Let_def isInt_def isString_def Validator_fail_def
      newValidator_def msg_simps split: option.splits dest!: append_eq_lastD)

lemma acc_probe_port_range:
  assumes "Tag cp = ''!!int''" and "Atoi (Value cp) = (p, None)"
    and "Kind probe = MappingNode" and "mapify probe ''httpGet'' = Some hg"
    and "Kind hg = MappingNode" and "mapify hg ''port'' = Some cp"
  shows "(f @ '':'' @ itoa (Line cp) @ '' port value out of range''
            \<in> set (stdout (Validator_validateProbe probe (newValidator f))))
         = (\<not> (1 \<le> p \<and> p \<le> 65535))"
  using assms
  by (auto simp add: Validator_validateProbe_def Let_def isInt_def isString_def Validator_fail_def
      newValidator_def msg_simps split: option.splits dest!: append_eq_lastD)

lemma ff_port_range:
  assumes "Tag cp = ''!!int''" and "Kind cp = ScalarNode" and "Atoi (Value cp) = (p, None)"
    and "getMapValue node ''containerPort'' = Ret (Some cp)"
  shows "(validateContainerPort node = failAt cp ''containerPort value out of range'')
         = (\<not> (1 \<le> p \<and> p \<le> 65535))"
  using assms
  by (auto simp add: validateContainerPort_def lookup_def check_def ensureInt_def ensureString_def
      failAt_def Let_def split: option.splits outcome.splits)

lemma ff_probe_port_range:
  assumes "Tag cp = ''!!int''" and "Kind cp = ScalarNode" and "Atoi (Value cp) = (p, None)"
    and "getMapValue probe ''httpGet'' = Ret (Some hg)" and "Kind hg = MappingNode"
    and "getMapValue hg ''path'' = Ret (Some pth)" and "ensureString pth ''path'' = None"
    and "prefix ''/'' (Value pth)" and "getMapValue hg ''port'' = Ret (Some cp)"
  shows "(validateProbe probe = failAt cp ''port value out of range'')
         = (\<not> (1 \<le> p \<and> p \<le> 65535))"
  using assms
  by (auto simp add: validateProbe_def lookup_def check_def ensureInt_def
      failAt_def Let_def split: option.splits outcome.splits)







lemma mapify_loop_last:
  "mapify_loop cs res key =
     (let vs = valuesFor (\<lambda>k. Kind k = ScalarNode \<and> Value k = key) cs
      in if vs = [] then res key else Some (last vs))"
  by (induction cs res rule: mapify_loop.induct) (simp_all add: valuesFor_def Let_def)

lemma getMapValue_loop_first:
  "valuesFor (\<lambda>k. Value k = key) cs \<noteq> [] \<Longrightarrow>
   getMapValue_loop cs key = Ret (Some (hd (valuesFor (\<lambda>k. Value k = key) cs)))"
  by (induction cs key rule: getMapValue_loop.induct) (auto simp add: valuesFor_def split: if_splits)

lemma getMapValue_loop_none:
  "valuesFor (\<lambda>k. Value k = key) cs = [] \<Longrightarrow>
   getMapValue_loop cs key = (if even (length cs) then Ret None else Panic)"
  by (induction cs key rule: getMapValue_loop.induct) (simp_all add: valuesFor_def split: if_splits)

lemma spec_field_scan_first:
  "spec_field_scan cs key =
     (case valuesFor (\<lambda>k. Kind k = ScalarNode \<and> Value k = key) cs of [] \<Rightarrow> None | v # _ \<Rightarrow> Some v)"
  by (induction cs key rule: spec_field_scan.induct) (simp_all add: valuesFor_def)






























section \<open>The fail-fast validator returns on the trees of the parser\<close>




























section \<open>The matcher and the patterns\<close>

lemma Nil_in_conc: "[] \<in> conc A B \<longleftrightarrow> [] \<in> A \<and> [] \<in> B"
  by (auto simp add: conc_def)

lemma Cons_in_conc:
  "c # w \<in> conc A B \<longleftrightarrow>
     ([] \<in> A \<and> c # w \<in> B) \<or> (\<exists>u v. w = u @ v \<and> c # u \<in> A \<and> v \<in> B)"
  by (auto simp add: conc_def Cons_eq_append_conv)

lemma star_Cons_D:
  assumes "x \<in> star A" and "x = c # w"
  shows "\<exists>u v. w = u @ v \<and> c # u \<in> A \<and> v \<in> star A"
  using assms
proof (induction rule: star.induct)
  case star_Nil
  then show ?case by simp
next
  case (star_app u v)
  show ?case
  proof (cases u)
    case Nil
    with star_app show ?thesis by simp
  next
    case (Cons d u')
    with star_app.prems have "d = c" and "w = u' @ v" by simp_all
    with star_app.hyps Cons show ?thesis by blast
  qed
qed

lemma Cons_in_star:
  "c # w \<in> star A \<longleftrightarrow> (\<exists>u v. w = u @ v \<and> c # u \<in> A \<and> v \<in> star A)"
proof
  assume "c # w \<in> star A"
  then show "\<exists>u v. w = u @ v \<and> c # u \<in> A \<and> v \<in> star A"
    by (rule star_Cons_D) simp
next
  assume "\<exists>u v. w = u @ v \<and> c # u \<in> A \<and> v \<in> star A"
  then obtain u v where "w = u @ v" and "c # u \<in> A" and "v \<in> star A"
    by blast
  then show "c # w \<in> star A"
    using star_app [of "c # u" A v] by simp
qed

lemma nullable_lang: "nullable r \<longleftrightarrow> [] \<in> lang r"
  by (induction r) (auto simp add: Nil_in_conc star_Nil)

lemma in_conc: "w \<in> conc A B \<longleftrightarrow> (\<exists>u v. w = u @ v \<and> u \<in> A \<and> v \<in> B)"
  by (auto simp add: conc_def)

lemma deriv_lang: "w \<in> lang (deriv c r) \<longleftrightarrow> c # w \<in> lang r"
proof (induction r arbitrary: w)
  case (Seq r s)
  have "c # w \<in> lang (Seq r s) \<longleftrightarrow>
      (nullable r \<and> w \<in> lang (deriv c s))
      \<or> (\<exists>u v. w = u @ v \<and> u \<in> lang (deriv c r) \<and> v \<in> lang s)"
    by (simp add: Cons_in_conc nullable_lang Seq)
  also have "\<dots> \<longleftrightarrow> w \<in> lang (deriv c (Seq r s))"
    by (auto simp add: in_conc)
  finally show ?case by simp
next
  case (Star r)
  have "c # w \<in> lang (Star r) \<longleftrightarrow>
      (\<exists>u v. w = u @ v \<and> u \<in> lang (deriv c r) \<and> v \<in> star (lang r))"
    by (simp add: Cons_in_star Star)
  also have "\<dots> \<longleftrightarrow> w \<in> lang (deriv c (Star r))"
    by (simp add: in_conc)
  finally show ?case by simp
next
  case (Plus r)
  have "c # w \<in> lang (Plus r) \<longleftrightarrow>
      (\<exists>u v. w = u @ v \<and> c # u \<in> lang r \<and> v \<in> star (lang r))"
    by (auto simp add: Cons_in_conc Cons_in_star)
  also have "\<dots> \<longleftrightarrow> (\<exists>u v. w = u @ v \<and> u \<in> lang (deriv c r) \<and> v \<in> star (lang r))"
    by (simp add: Plus)
  also have "\<dots> \<longleftrightarrow> w \<in> lang (deriv c (Plus r))"
    by (simp add: in_conc)
  finally show ?case by simp
qed auto

lemma matches_lang: "matches r s \<longleftrightarrow> s \<in> lang r"
proof (induction s arbitrary: r)
  case Nil
  show ?case by (simp add: matches_def nullable_lang)
next
  case (Cons c s)
  have "matches r (c # s) = matches (deriv c r) s"
    by (simp add: matches_def)
  with Cons show ?case by (simp add: deriv_lang)
qed


lemma lang_lit: "lang (lit s) = {s}"
  by (induction s) (auto simp add: lit_def conc_def)

lemma star_class:
  "w \<in> star {[c] | c. P c} \<longleftrightarrow> list_all P w"
proof (induction w)
  case Nil
  show ?case by (simp add: star_Nil)
next
  case (Cons a w)
  then show ?case by (auto simp add: Cons_in_star)
qed

lemma plus_class:
  "w \<in> conc {[c] | c. P c} (star {[c] | c. P c}) \<longleftrightarrow> w \<noteq> [] \<and> list_all P w"
  by (cases w) (auto simp add: Nil_in_conc Cons_in_conc star_class)

lemma inClass_digit: "inClass False [(CHR ''0'', CHR ''9'')] c = isDigit c"
  by (simp add: inClass_def isDigit_def)

lemma inClass_alnum:
  "inClass False [(CHR ''a'', CHR ''z''), (CHR ''0'', CHR ''9'')] c = isAlnum c"
  by (auto simp add: inClass_def isAlnum_def)

lemma lang_plus_class:
  "lang (Plus (Class neg rs)) = {w. w \<noteq> [] \<and> list_all (inClass neg rs) w}"
  by (rule set_eqI) (simp add: plus_class)

lemma reMem_iff:
  "MatchString reMem s \<longleftrightarrow>
     (\<exists>ds u. s = ds @ u \<and> ds \<noteq> [] \<and> list_all isDigit ds
        \<and> (u = ''Gi'' \<or> u = ''Mi'' \<or> u = ''Ki''))"
proof -
  have digits: "inClass False [(CHR ''0'', CHR ''9'')] = isDigit"
    by (simp add: fun_eq_iff inClass_digit)
  have "lang reMem = conc {w. w \<noteq> [] \<and> list_all isDigit w} ({''Gi''} \<union> ({''Mi''} \<union> {''Ki''}))"
    unfolding reMem_def lang.simps(5,6) lang_plus_class lang_lit digits ..
  then have "MatchString reMem s \<longleftrightarrow>
      (\<exists>ds u. s = ds @ u \<and> ds \<in> {w. w \<noteq> [] \<and> list_all isDigit w}
         \<and> u \<in> {''Gi''} \<union> ({''Mi''} \<union> {''Ki''}))"
    by (simp only: MatchString_def matches_lang in_conc)
  then show ?thesis by auto
qed

lemma isValidMemory_iff:
  "isValidMemory s \<longleftrightarrow>
     (\<exists>num u. s = num @ u \<and> (u = ''Gi'' \<or> u = ''Mi'' \<or> u = ''Ki'') \<and> snd (Atoi num) = None)"
proof
  assume v: "isValidMemory s"
  let ?u = "drop (length s - 2) s" and ?n = "take (length s - 2) s"
  have "s = ?n @ ?u" by simp
  moreover from v have "(?u = ''Gi'' \<or> ?u = ''Mi'' \<or> ?u = ''Ki'') \<and> snd (Atoi ?n) = None"
    by (auto simp add: isValidMemory_def Let_def split: if_splits)
  ultimately show "\<exists>num u. s = num @ u \<and> (u = ''Gi'' \<or> u = ''Mi'' \<or> u = ''Ki'') \<and> snd (Atoi num) = None"
    by blast
next
  assume "\<exists>num u. s = num @ u \<and> (u = ''Gi'' \<or> u = ''Mi'' \<or> u = ''Ki'') \<and> snd (Atoi num) = None"
  then obtain num u where s: "s = num @ u" and u: "u = ''Gi'' \<or> u = ''Mi'' \<or> u = ''Ki''"
    and a: "snd (Atoi num) = None"
    by blast
  from a have n: "num \<noteq> []"
    by (cases num) (simp_all add: Atoi_def)
  from u have l: "length u = 2"
    by auto
  from n l have "\<not> length s < 3"
    by (cases num) (simp_all add: s)
  moreover from l have "drop (length s - 2) s = u" and "take (length s - 2) s = num"
    by (simp_all add: s)
  ultimately show "isValidMemory s"
    using u a n by (simp add: isValidMemory_def Let_def)
qed

lemma reSnake_iff: "MatchString reSnake s \<longleftrightarrow> snakeWord s"
proof -
  define A where "A = {[c] | c. isAlnum c}"
  define P where "P = conc A (star A)"
  define T where "T = star (conc {[CHR ''_'']} P)"
  have alnum: "inClass False [(CHR ''a'', CHR ''z''), (CHR ''0'', CHR ''9'')] = isAlnum"
    by (simp add: fun_eq_iff inClass_alnum)
  have lang: "lang reSnake = conc P T"
    by (simp add: reSnake_def alnum_def alnum A_def P_def T_def)
  have inA: "c # u \<in> A \<longleftrightarrow> isAlnum c \<and> u = []" for c u
    by (auto simp add: A_def)
  have nilA: "[] \<notin> A"
    by (simp add: A_def)
  have nilP: "[] \<notin> P"
    by (simp add: P_def Nil_in_conc nilA)
  have consP: "c # u \<in> P \<longleftrightarrow> isAlnum c \<and> u \<in> star A" for c u
    by (auto simp add: P_def Cons_in_conc nilA inA)
  have consSA: "c # u \<in> star A \<longleftrightarrow> isAlnum c \<and> u \<in> star A" for c u
    by (auto simp add: Cons_in_star inA)
  have consUP: "c # u \<in> conc {[CHR ''_'']} P \<longleftrightarrow> c = CHR ''_'' \<and> u \<in> P" for c u
    by (auto simp add: Cons_in_conc)
  have consT: "c # w \<in> T \<longleftrightarrow> c = CHR ''_'' \<and> w \<in> conc P T" for c w
  proof -
    have "c # w \<in> T \<longleftrightarrow> (\<exists>u v. w = u @ v \<and> (c = CHR ''_'' \<and> u \<in> P) \<and> v \<in> T)"
      by (simp only: T_def Cons_in_star consUP)
    also have "\<dots> \<longleftrightarrow> c = CHR ''_'' \<and> w \<in> conc P T"
      by (auto simp add: in_conc)
    finally show ?thesis .
  qed
  have under: "\<not> isAlnum (CHR ''_'')"
    by (simp add: isAlnum_def)
  have word: "c # w \<in> conc P T \<longleftrightarrow> isAlnum c \<and> w \<in> conc (star A) T" for c w
  proof -
    have "c # w \<in> conc P T \<longleftrightarrow>
        (\<exists>u v. w = u @ v \<and> (isAlnum c \<and> u \<in> star A) \<and> v \<in> T)"
      by (simp only: Cons_in_conc consP nilP simp_thms)
    also have "\<dots> \<longleftrightarrow> isAlnum c \<and> w \<in> conc (star A) T"
      by (auto simp add: in_conc)
    finally show ?thesis .
  qed
  have rest: "c # w \<in> conc (star A) T \<longleftrightarrow>
      (isAlnum c \<and> w \<in> conc (star A) T) \<or> (c = CHR ''_'' \<and> w \<in> conc P T)" for c w
  proof -
    have "c # w \<in> conc (star A) T \<longleftrightarrow>
        (c = CHR ''_'' \<and> w \<in> conc P T)
        \<or> (\<exists>u v. w = u @ v \<and> (isAlnum c \<and> u \<in> star A) \<and> v \<in> T)"
      by (simp only: Cons_in_conc consSA consT star_Nil simp_thms)
    also have "\<dots> \<longleftrightarrow>
        (isAlnum c \<and> w \<in> conc (star A) T) \<or> (c = CHR ''_'' \<and> w \<in> conc P T)"
      by (auto simp add: in_conc)
    finally show ?thesis .
  qed
  have both: "(s \<in> conc P T \<longleftrightarrow> snakeWord s) \<and> (s \<in> conc (star A) T \<longleftrightarrow> snakeRest s)"
  proof (induction s)
    case Nil
    show ?case
      by (simp add: Nil_in_conc nilP star_Nil T_def)
  next
    case (Cons c s)
    then show ?case
      using under by (auto simp add: word rest)
  qed
  then show ?thesis
    by (simp add: MatchString_def matches_lang lang)
qed


lemma isSnakeCase_loop_iff:
  "n = i + length rs \<Longrightarrow>
   isSnakeCase_loop i n rs \<longleftrightarrow>
     list_all nameChar rs \<and> (i = 0 \<and> rs \<noteq> [] \<longrightarrow> hd rs \<noteq> CHR ''_'')
     \<and> (rs \<noteq> [] \<longrightarrow> last rs \<noteq> CHR ''_'')"
proof (induction rs arbitrary: i)
  case Nil
  show ?case by simp
next
  case (Cons r rs)
  have under: "\<not> isAlnum (CHR ''_'')"
    by (simp add: isAlnum_def)
  from Cons.prems have n: "n = Suc i + length rs"
    by simp
  have last_index: "int i \<noteq> int n - 1 \<longleftrightarrow> rs \<noteq> []"
    using n by auto
  show ?case
  proof (cases "isAlnum r")
    case True
    then have "isSnakeCase_loop i n (r # rs) = isSnakeCase_loop (Suc i) n rs"
      by (auto simp add: isAlnum_def)
    with Cons.IH [OF n] True under show ?thesis
      by (auto simp add: nameChar_def)
  next
    case False
    then have "isSnakeCase_loop i n (r # rs) =
        (r = CHR ''_'' \<and> i \<noteq> 0 \<and> rs \<noteq> [] \<and> isSnakeCase_loop (Suc i) n rs)"
      using last_index by (auto simp add: isAlnum_def)
    with Cons.IH [OF n] False show ?thesis
      by (auto simp add: nameChar_def)
  qed
qed

lemma isSnakeCase_iff:
  "isSnakeCase s \<longleftrightarrow>
     s \<noteq> [] \<and> list_all nameChar s \<and> hd s \<noteq> CHR ''_'' \<and> last s \<noteq> CHR ''_''"
  using isSnakeCase_loop_iff [of "length s" 0 s]
  by (auto simp add: isSnakeCase_def)

lemma snake_chars:
  "(snakeWord s \<longleftrightarrow>
      s \<noteq> [] \<and> hd s \<noteq> CHR ''_'' \<and> list_all nameChar s \<and> last s \<noteq> CHR ''_'' \<and> noDouble s)
   \<and> (snakeRest s \<longleftrightarrow>
      list_all nameChar s \<and> (s \<noteq> [] \<longrightarrow> last s \<noteq> CHR ''_'') \<and> noDouble s)"
proof (induction s)
  case Nil
  show ?case by simp
next
  case (Cons c s)
  have under: "\<not> isAlnum (CHR ''_'')"
    by (simp add: isAlnum_def)
  show ?case
  proof (cases s)
    case Nil
    with under show ?thesis
      by (auto simp add: nameChar_def)
  next
    case (Cons d s')
    with Cons.IH under show ?thesis
      by (auto simp add: nameChar_def)
  qed
qed

lemma reSnake_isSnakeCase:
  "MatchString reSnake s \<longleftrightarrow> isSnakeCase s \<and> noDouble s"
  using snake_chars [of s] by (auto simp add: reSnake_iff isSnakeCase_iff)

section \<open>The empty sequence of containers\<close>

lemma acc_empty_containers_silent:
  assumes "Kind node = MappingNode" and "mapify node ''containers'' = Some cn"
    and "Kind cn = SequenceNode" and "Content cn = []"
  shows "Validator_validateSpec node v = Validator_validateSpec_os (mapify node) v"
  using assms
  by (simp add: Validator_validateSpec_def Validator_validateSpec_containers_def Let_def)

lemma ff_empty_containers_rejected:
  assumes "getMapValue node ''containers'' = Ret (Some cn)"
    and "Kind cn = SequenceNode" and "Content cn = []"
  shows "validateSpec_containers node = failAt cn ''containers value out of range''"
    and "validateSpec node \<noteq> Ret None"
  using assms
  by (auto simp add: validateSpec_def validateSpec_containers_def andThen_def lookup_def
      failAt_def split: outcome.splits option.splits)

section \<open>The claims\<close>

text \<open>
  C1. A \<^verbatim>\<open>spec\<close> whose \<^verbatim>\<open>containers\<close> is an empty sequence is to be rejected with a
  violation for the empty collection. The accumulating validator accepts the manifest
  \<open>exEmptyContainers\<close>: it prints nothing and exits with 0. The fail-fast validator
  reports \<^verbatim>\<open>containers value out of range\<close> at line 6 and exits with 1.
\<close>

theorem empty_containers_accepted_by_accumulating_validator:
  "main_acc ''pod.yaml'' exEmptyContainers = ([], 0)
   \<and> main_ff ''pod.yaml'' exEmptyContainers =
       Ret ([''pod.yaml:6 containers value out of range''], 1)"
  by code_simp




text \<open>
  C3, as stated, fails: on the mapping \<open>exDupKeys\<close>, with the key \<^verbatim>\<open>name\<close> twice,
  \<^verbatim>\<open>mapify\<close> gives the value of the second occurrence, where the accessor of the
  specification gives the first.
\<close>

theorem mapify_last_duplicate_wins:
  "mapify exDupKeys ''name'' = Some (strNode ''second'' 2)
   \<and> spec_field exDupKeys ''name'' = Some (strNode ''first'' 1)
   \<and> getMapValue exDupKeys ''name'' = Ret (Some (strNode ''first'' 1))"
  by code_simp

text \<open>
  C3, amended. On a node that is no mapping both accessors return absent. On a mapping,
  \<^verbatim>\<open>mapify\<close> returns the value paired with the last scalar key equal to the requested
  key, and \<^verbatim>\<open>getMapValue\<close> the value paired with the first key, of any kind, whose
  value equals it; without such a key \<^verbatim>\<open>getMapValue\<close> returns absent on a mapping with
  an even number of children.
\<close>

theorem field_accessors:
  "(Kind node \<noteq> MappingNode \<longrightarrow> mapify node key = None \<and> getMapValue node key = Ret None)
   \<and> (Kind node = MappingNode \<longrightarrow>
        mapify node key =
          (let vs = valuesFor (\<lambda>k. Kind k = ScalarNode \<and> Value k = key) (Content node)
           in if vs = [] then None else Some (last vs)))
   \<and> (Kind node = MappingNode \<and> valuesFor (\<lambda>k. Value k = key) (Content node) \<noteq> [] \<longrightarrow>
        getMapValue node key = Ret (Some (hd (valuesFor (\<lambda>k. Value k = key) (Content node)))))
   \<and> (Kind node = MappingNode \<and> valuesFor (\<lambda>k. Value k = key) (Content node) = []
        \<and> even (length (Content node)) \<longrightarrow> getMapValue node key = Ret None)"
proof -
  have a: "Kind node \<noteq> MappingNode \<longrightarrow> mapify node key = None \<and> getMapValue node key = Ret None"
    by (simp add: mapify_def getMapValue_def)
  have b: "Kind node = MappingNode \<longrightarrow>
      mapify node key =
        (let vs = valuesFor (\<lambda>k. Kind k = ScalarNode \<and> Value k = key) (Content node)
         in if vs = [] then None else Some (last vs))"
    by (simp add: mapify_def mapify_loop_last Let_def)
  have c: "Kind node = MappingNode \<and> valuesFor (\<lambda>k. Value k = key) (Content node) \<noteq> [] \<longrightarrow>
      getMapValue node key = Ret (Some (hd (valuesFor (\<lambda>k. Value k = key) (Content node))))"
    by (simp add: getMapValue_def getMapValue_loop_first)
  have d: "Kind node = MappingNode \<and> valuesFor (\<lambda>k. Value k = key) (Content node) = []
      \<and> even (length (Content node)) \<longrightarrow> getMapValue node key = Ret None"
    by (simp add: getMapValue_def getMapValue_loop_none)
  from a b c d show ?thesis by blast
qed

theorem field_accessors_witness:
  "Kind (strNode ''x'' 1) \<noteq> MappingNode
   \<and> mapify (strNode ''x'' 1) ''name'' = None \<and> getMapValue (strNode ''x'' 1) ''name'' = Ret None
   \<and> Kind exDupKeys = MappingNode
   \<and> valuesFor (\<lambda>k. Kind k = ScalarNode \<and> Value k = ''name'') (Content exDupKeys)
       = [strNode ''first'' 1, strNode ''second'' 2]
   \<and> valuesFor (\<lambda>k. Value k = ''name'') (Content exDupKeys) \<noteq> []
   \<and> mapify exDupKeys ''name'' = Some (strNode ''second'' 2)
   \<and> getMapValue exDupKeys ''name'' = Ret (Some (strNode ''first'' 1))
   \<and> valuesFor (\<lambda>k. Value k = ''image'') (Content exDupKeys) = []
   \<and> even (length (Content exDupKeys))
   \<and> getMapValue exDupKeys ''image'' = Ret None"
proof -
  have k1: "Kind (strNode ''x'' 1) \<noteq> MappingNode"
    by code_simp
  have k2: "Kind exDupKeys = MappingNode"
    by code_simp
  have vs: "valuesFor (\<lambda>k. Kind k = ScalarNode \<and> Value k = ''name'') (Content exDupKeys)
      = [strNode ''first'' 1, strNode ''second'' 2]"
    by code_simp
  have vf: "valuesFor (\<lambda>k. Value k = ''name'') (Content exDupKeys)
      = [strNode ''first'' 1, strNode ''second'' 2]"
    by code_simp
  have vn: "valuesFor (\<lambda>k. Value k = ''image'') (Content exDupKeys) = []"
    by code_simp
  have ev: "even (length (Content exDupKeys))"
    by code_simp
  from field_accessors [of "strNode ''x'' 1" "''name''"] k1
  have p1: "mapify (strNode ''x'' 1) ''name'' = None \<and> getMapValue (strNode ''x'' 1) ''name'' = Ret None"
    by blast
  from field_accessors [of exDupKeys "''name''"] k2 vs vf
  have p2: "mapify exDupKeys ''name'' = Some (strNode ''second'' 2)
      \<and> getMapValue exDupKeys ''name'' = Ret (Some (strNode ''first'' 1))"
    by (simp add: Let_def)
  from field_accessors [of exDupKeys "''image''"] k2 vn ev
  have p3: "getMapValue exDupKeys ''image'' = Ret None"
    by blast
  from k1 k2 vs vf vn ev p1 p2 p3 show ?thesis by simp
qed

text \<open>
  C4. A memory quantity is to be accepted only if it matches \<^verbatim>\<open>^[0-9]+(Gi|Mi|Ki)$\<close>, so
  \<^verbatim>\<open>-5Gi\<close> is to be rejected. \<^verbatim>\<open>isValidMemory\<close> of the fail-fast validator accepts it,
  and the manifest \<open>exSignedMemory\<close> passes with exit code 0; the pattern \<^verbatim>\<open>reMem\<close> of
  the accumulating validator rejects it.
\<close>

theorem signed_memory_accepted_by_isValidMemory:
  "isValidMemory ''-5Gi''
   \<and> isValidMemory ''512Mi'' \<and> isValidMemory ''2Gi'' \<and> isValidMemory ''100Ki''
   \<and> \<not> isValidMemory ''512mi'' \<and> \<not> isValidMemory ''512'' \<and> \<not> isValidMemory ''512Xi''
   \<and> MatchString reMem ''512Mi'' \<and> MatchString reMem ''2Gi'' \<and> MatchString reMem ''100Ki''
   \<and> \<not> MatchString reMem ''512mi'' \<and> \<not> MatchString reMem ''512'' \<and> \<not> MatchString reMem ''512Xi''
   \<and> main_ff ''pod.yaml'' exSignedMemory = Ret ([], 0)
   \<and> \<not> MatchString reMem ''-5Gi''
   \<and> main_acc ''pod.yaml'' exSignedMemory =
       ([''pod.yaml:11 memory has invalid format '' @ quoted ''-5Gi''], 1)"
  by code_simp

text \<open>
  C5. A container name is to be accepted only if it matches
  \<^verbatim>\<open>^[a-z0-9]+(_[a-z0-9]+)*$\<close>, so \<^verbatim>\<open>a__b\<close> is to be rejected. \<^verbatim>\<open>isSnakeCase\<close> of the
  fail-fast validator accepts it, and the manifest \<open>exDoubleUnderscore\<close> passes with exit
  code 0; the pattern \<^verbatim>\<open>reSnake\<close> of the accumulating validator rejects it.
\<close>

theorem double_underscore_accepted_by_isSnakeCase:
  "isSnakeCase ''a__b''
   \<and> isSnakeCase ''web_1'' \<and> \<not> isSnakeCase ''_a'' \<and> \<not> isSnakeCase ''a_''
   \<and> \<not> isSnakeCase ''Web-1'' \<and> \<not> isSnakeCase []
   \<and> MatchString reSnake ''web_1'' \<and> \<not> MatchString reSnake ''_a'' \<and> \<not> MatchString reSnake ''a_''
   \<and> \<not> MatchString reSnake ''Web-1'' \<and> \<not> MatchString reSnake []
   \<and> main_ff ''pod.yaml'' exDoubleUnderscore = Ret ([], 0)
   \<and> \<not> MatchString reSnake ''a__b''
   \<and> main_acc ''pod.yaml'' exDoubleUnderscore =
       ([''pod.yaml:7 name has invalid format '' @ quoted ''a__b''], 1)"
  by code_simp




text \<open>
  C7. For a port field holding an integer \<open>p\<close>, the range violation is reported exactly
  when \<open>p\<close> is outside \<open>1..65535\<close>: for \<^verbatim>\<open>containerPort\<close> and for the \<^verbatim>\<open>port\<close> of
  \<^verbatim>\<open>httpGet\<close>, in the accumulating validator (the violation is among the printed lines)
  and in the fail-fast validator (the violation is the returned error).
\<close>

theorem port_range_check:
  assumes "Tag cp = ''!!int''" and "Kind cp = ScalarNode" and "Atoi (Value cp) = (p, None)"
  shows "(Kind node = MappingNode \<and> mapify node ''containerPort'' = Some cp \<longrightarrow>
            (f @ '':'' @ itoa (Line cp) @ '' containerPort value out of range''
               \<in> set (stdout (Validator_validatePort node (newValidator f))))
            = (\<not> (1 \<le> p \<and> p \<le> 65535)))
       \<and> (Kind probe = MappingNode \<and> mapify probe ''httpGet'' = Some hg
            \<and> Kind hg = MappingNode \<and> mapify hg ''port'' = Some cp \<longrightarrow>
            (f @ '':'' @ itoa (Line cp) @ '' port value out of range''
               \<in> set (stdout (Validator_validateProbe probe (newValidator f))))
            = (\<not> (1 \<le> p \<and> p \<le> 65535)))
       \<and> (getMapValue node ''containerPort'' = Ret (Some cp) \<longrightarrow>
            (validateContainerPort node = failAt cp ''containerPort value out of range'')
            = (\<not> (1 \<le> p \<and> p \<le> 65535)))
       \<and> (getMapValue probe ''httpGet'' = Ret (Some hg) \<and> Kind hg = MappingNode
            \<and> getMapValue hg ''path'' = Ret (Some pth) \<and> ensureString pth ''path'' = None
            \<and> prefix ''/'' (Value pth) \<and> getMapValue hg ''port'' = Ret (Some cp) \<longrightarrow>
            (validateProbe probe = failAt cp ''port value out of range'')
            = (\<not> (1 \<le> p \<and> p \<le> 65535)))"
  using acc_port_range [OF assms(1,3), of node f]
    acc_probe_port_range [OF assms(1,3), of probe hg f]
    ff_port_range [OF assms, of node]
    ff_probe_port_range [OF assms, of probe hg pth]
  by blast

theorem port_range_check_witness:
  "Tag (intNode ''65536'' 3) = ''!!int'' \<and> Kind (intNode ''65536'' 3) = ScalarNode
   \<and> Atoi (Value (intNode ''65536'' 3)) = (65536, None)
   \<and> Atoi (Value (intNode ''65535'' 3)) = (65535, None)
   \<and> Atoi (Value (intNode ''1'' 3)) = (1, None)
   \<and> Atoi (Value (intNode ''0'' 3)) = (0, None)
   \<and> Kind (exPort (intNode ''65536'' 3)) = MappingNode
   \<and> mapify (exPort (intNode ''65536'' 3)) ''containerPort'' = Some (intNode ''65536'' 3)
   \<and> ''pod.yaml:3 containerPort value out of range''
        \<in> set (stdout (Validator_validatePort (exPort (intNode ''65536'' 3)) (newValidator ''pod.yaml'')))
   \<and> ''pod.yaml:3 containerPort value out of range''
        \<in> set (stdout (Validator_validatePort (exPort (intNode ''0'' 3)) (newValidator ''pod.yaml'')))
   \<and> ''pod.yaml:3 containerPort value out of range''
        \<notin> set (stdout (Validator_validatePort (exPort (intNode ''1'' 3)) (newValidator ''pod.yaml'')))
   \<and> ''pod.yaml:3 containerPort value out of range''
        \<notin> set (stdout (Validator_validatePort (exPort (intNode ''65535'' 3)) (newValidator ''pod.yaml'')))
   \<and> ''pod.yaml:3 port value out of range''
        \<in> set (stdout (Validator_validateProbe (exProbe (intNode ''65536'' 3)) (newValidator ''pod.yaml'')))
   \<and> validateContainerPort (exPort (intNode ''65536'' 3))
        = failAt (intNode ''65536'' 3) ''containerPort value out of range''
   \<and> validateContainerPort (exPort (intNode ''65535'' 3))
        \<noteq> failAt (intNode ''65535'' 3) ''containerPort value out of range''
   \<and> validateProbe (exProbe (intNode ''0'' 3)) = failAt (intNode ''0'' 3) ''port value out of range''"
proof -
  have t: "Tag (intNode s 3) = ''!!int''" and k: "Kind (intNode s 3) = ScalarNode" for s
    by (simp_all add: intNode_def)
  have a1: "Atoi (Value (intNode ''65536'' 3)) = (65536, None)" by code_simp
  have a2: "Atoi (Value (intNode ''65535'' 3)) = (65535, None)" by code_simp
  have a3: "Atoi (Value (intNode ''1'' 3)) = (1, None)" by code_simp
  have a4: "Atoi (Value (intNode ''0'' 3)) = (0, None)" by code_simp
  have km: "Kind (exPort c) = MappingNode" for c
    by (simp add: exPort_def mapNode_def)
  have mp: "mapify (exPort c) ''containerPort'' = Some c" for c
    by (simp add: exPort_def mapNode_def strNode_def mapify_def)
  have gp: "getMapValue (exPort c) ''containerPort'' = Ret (Some c)" for c
    by (simp add: exPort_def mapNode_def strNode_def getMapValue_def)
  have kp: "Kind (exProbe c) = MappingNode" and kh: "Kind (exHttpGet c) = MappingNode" for c
    by (simp_all add: exProbe_def exHttpGet_def mapNode_def)
  have mh: "mapify (exProbe c) ''httpGet'' = Some (exHttpGet c)" for c
    by (simp add: exProbe_def mapNode_def strNode_def mapify_def)
  have mq: "mapify (exHttpGet c) ''port'' = Some c" for c
    by (simp add: exHttpGet_def mapNode_def strNode_def mapify_def)
  have gh: "getMapValue (exProbe c) ''httpGet'' = Ret (Some (exHttpGet c))" for c
    by (simp add: exProbe_def mapNode_def strNode_def getMapValue_def)
  have gq: "getMapValue (exHttpGet c) ''port'' = Ret (Some c)" for c
    by (simp add: exHttpGet_def mapNode_def strNode_def getMapValue_def)
  have gpa: "getMapValue (exHttpGet c) ''path'' = Ret (Some (strNode ''/health'' 5))" for c
    by (simp add: exHttpGet_def mapNode_def strNode_def getMapValue_def)
  have es: "ensureString (strNode ''/health'' 5) ''path'' = None"
    by (simp add: ensureString_def strNode_def)
  have pf: "prefix ''/'' (Value (strNode ''/health'' 5))"
    by (simp add: strNode_def)
  have ln: "itoa (Line (intNode s 3)) = ''3''" for s
    by (simp add: intNode_def itoa_def natDigits.simps)
  note w1 = port_range_check [OF t k a1, of "exPort (intNode ''65536'' 3)" "''pod.yaml''"
      "exProbe (intNode ''65536'' 3)" "exHttpGet (intNode ''65536'' 3)" "strNode ''/health'' 5"]
  note w2 = port_range_check [OF t k a2, of "exPort (intNode ''65535'' 3)" "''pod.yaml''"
      "exProbe (intNode ''65535'' 3)" "exHttpGet (intNode ''65535'' 3)" "strNode ''/health'' 5"]
  note w3 = port_range_check [OF t k a3, of "exPort (intNode ''1'' 3)" "''pod.yaml''"
      "exProbe (intNode ''1'' 3)" "exHttpGet (intNode ''1'' 3)" "strNode ''/health'' 5"]
  note w4 = port_range_check [OF t k a4, of "exPort (intNode ''0'' 3)" "''pod.yaml''"
      "exProbe (intNode ''0'' 3)" "exHttpGet (intNode ''0'' 3)" "strNode ''/health'' 5"]
  show ?thesis
    using w1 w2 w3 w4 t k a1 a2 a3 a4
    by (simp add: km mp gp kp kh mh mq gh gq gpa es pf ln)
qed



text \<open>
  C9. In the accumulating validator, on a \<^verbatim>\<open>spec\<close> mapping whose \<^verbatim>\<open>containers\<close> is a
  sequence, the printed lines are those of the \<^verbatim>\<open>os\<close> block followed, for each element in
  order, by the lines \<^verbatim>\<open>validateContainer\<close> prints for that element on its own, and \<open>errs\<close>
  grows by their number; a violation in one element stops nothing. \<^verbatim>\<open>main\<close> exits with a
  non-zero code exactly when \<open>errs\<close> is not zero, and \<open>errs\<close> is the number of printed
  violations.
\<close>

theorem accumulate_all_visits_every_container:
  assumes "Kind node = MappingNode"
    and "mapify node ''containers'' = Some cn"
    and "Kind cn = SequenceNode"
  shows "stdout (Validator_validateSpec node v) =
           stdout (Validator_validateSpec_os (mapify node) v) @
           concat (map (\<lambda>c. stdout (Validator_validateContainer c (newValidator (filename v))))
                     (Content cn))
       \<and> errs (Validator_validateSpec node v) =
           errs (Validator_validateSpec_os (mapify node) v) +
           sum_list (map (\<lambda>c. errs (Validator_validateContainer c (newValidator (filename v))))
                     (Content cn))
       \<and> (snd (main_acc base root) \<noteq> 0) = (errs (Validator_validateRoot root (newValidator base)) \<noteq> 0)
       \<and> errs (Validator_validateRoot root (newValidator base)) = int (length (fst (main_acc base root)))"
proof -
  let ?w = "Validator_validateSpec_os (mapify node) v"
  have spec: "Validator_validateSpec node v = fold Validator_validateContainer (Content cn) ?w"
    using assms
    by (simp add: Validator_validateSpec_def Validator_validateSpec_containers_def Let_def)
  have same: "filename ?w = filename v"
    by (rule logs_frame(3) [OF logs_validateSpec_os])
  have out: "stdout (Validator_validateSpec node v) =
      stdout ?w @ concat (map (\<lambda>c. stdout (Validator_validateContainer c (newValidator (filename v))))
                     (Content cn))"
    unfolding spec using stdout_fold [of Validator_validateContainer "Content cn" ?w]
    by (simp add: logs_validateContainer same)
  have cnt: "errs (Validator_validateSpec node v) =
      errs ?w + sum_list (map (\<lambda>c. errs (Validator_validateContainer c (newValidator (filename v))))
                     (Content cn))"
    unfolding spec using errs_fold [of Validator_validateContainer "Content cn" ?w]
    by (simp add: logs_validateContainer same)
  have verdict: "(snd (main_acc base root) \<noteq> 0) =
      (errs (Validator_validateRoot root (newValidator base)) \<noteq> 0)"
    using logs_count [OF logs_validateRoot, of root base]
    by (simp add: main_acc_def Let_def)
  have len: "errs (Validator_validateRoot root (newValidator base)) =
      int (length (fst (main_acc base root)))"
    using logs_count [OF logs_validateRoot, of root base]
    by (simp add: main_acc_def Let_def)
  from out cnt verdict len show ?thesis by blast
qed

theorem accumulate_all_visits_every_container_witness:
  "Kind exTwoBad = MappingNode
   \<and> mapify exTwoBad ''containers'' = Some (seqNode [strNode ''oops'' 7, mapNode [] 8] 7)
   \<and> Kind (seqNode [strNode ''oops'' 7, mapNode [] 8] 7) = SequenceNode
   \<and> stdout (Validator_validateSpec exTwoBad (newValidator ''pod.yaml'')) =
       [''pod.yaml:7 container must be object'', ''pod.yaml:8 name is required'',
        ''pod.yaml:8 image is required'', ''pod.yaml:8 resources is required'']
   \<and> errs (Validator_validateSpec exTwoBad (newValidator ''pod.yaml'')) = 4
   \<and> snd (main_acc ''pod.yaml'' (exPod exTwoBad)) \<noteq> 0
   \<and> length (fst (main_acc ''pod.yaml'' (exPod exTwoBad))) = 4"
proof -
  let ?cn = "seqNode [strNode ''oops'' 7, mapNode [] 8] 7"
  let ?v = "newValidator ''pod.yaml''"
  have h1: "Kind exTwoBad = MappingNode" by code_simp
  have h2: "mapify exTwoBad ''containers'' = Some ?cn" by code_simp
  have h3: "Kind ?cn = SequenceNode" by code_simp
  have os: "Validator_validateSpec_os (mapify exTwoBad) ?v = ?v" by code_simp
  have fn: "filename ?v = ''pod.yaml''" by code_simp
  have cs: "Content ?cn = [strNode ''oops'' 7, mapNode [] 8]" by code_simp
  have c1: "Validator_validateContainer (strNode ''oops'' 7) ?v =
      \<lparr>filename = ''pod.yaml'', errs = 1, stdout = [''pod.yaml:7 container must be object'']\<rparr>"
    by code_simp
  have c2: "Validator_validateContainer (mapNode [] 8) ?v =
      \<lparr>filename = ''pod.yaml'', errs = 3,
       stdout = [''pod.yaml:8 name is required'', ''pod.yaml:8 image is required'',
                 ''pod.yaml:8 resources is required'']\<rparr>"
    by code_simp
  have e0: "errs ?v = 0" and s0: "stdout ?v = []"
    by (simp_all add: newValidator_def)
  have ev: "errs (Validator_validateRoot (exPod exTwoBad) ?v) = 4" by code_simp
  note t = accumulate_all_visits_every_container [OF h1 h2 h3, of ?v "''pod.yaml''" "exPod exTwoBad"]
  from t have p1: "stdout (Validator_validateSpec exTwoBad ?v) =
      [''pod.yaml:7 container must be object'', ''pod.yaml:8 name is required'',
       ''pod.yaml:8 image is required'', ''pod.yaml:8 resources is required'']"
    by (simp add: os fn cs c1 c2 s0)
  from t have p2: "errs (Validator_validateSpec exTwoBad ?v) = 4"
    by (simp add: os fn cs c1 c2 e0)
  from t ev have p3: "snd (main_acc ''pod.yaml'' (exPod exTwoBad)) \<noteq> 0"
    by simp
  from t ev have p4: "length (fst (main_acc ''pod.yaml'' (exPod exTwoBad))) = 4"
    by simp
  from h1 h2 h3 p1 p2 p3 p4 show ?thesis by blast
qed

text \<open>
  C10. In the accumulating validator \<^verbatim>\<open>validateProbe\<close> reports a node that is no mapping
  as \<^verbatim>\<open>readinessProbe must be object\<close>, and \<^verbatim>\<open>validateContainer\<close> calls it for
  \<^verbatim>\<open>livenessProbe\<close> too: a container whose \<^verbatim>\<open>livenessProbe\<close> is no mapping gets the line
  \<^verbatim>\<open><file>:<line> readinessProbe must be object\<close>, at the line of the \<^verbatim>\<open>livenessProbe\<close> node.
\<close>

theorem probe_wrong_type_message:
  assumes "Kind node = MappingNode"
    and "mapify node ''livenessProbe'' = Some lp"
    and "Kind lp \<noteq> MappingNode"
  shows "Validator_validateProbe lp v = Validator_fail (Line lp) ''readinessProbe must be object'' v
       \<and> filename v @ '':'' @ itoa (Line lp) @ '' readinessProbe must be object''
           \<in> set (stdout (Validator_validateContainer node v))"
proof -
  have probe: "Validator_validateProbe lp w =
      Validator_fail (Line lp) ''readinessProbe must be object'' w" for w
    using assms(3) by (simp add: Validator_validateProbe_def)
  have "filename v @ '':'' @ itoa (Line lp) @ '' readinessProbe must be object''
      \<in> set (stdout (Validator_validateContainer node v))"
    unfolding Validator_validateContainer_def Let_def
    apply (simp only: assms(1) assms(2) simp_thms if_False option.case)
    apply (rule mem_steps [where b = "Validator_validateProbe lp"])
      apply (simp only: list_all_Nil_iff list_all_Cons_iff simp_thms)
      apply (intro conjI logs_intros logs_validatePort logs_validateProbe logs_validateResources)
     apply simp
    apply (simp add: probe Validator_fail_def)
    done
  with probe show ?thesis by blast
qed

theorem probe_wrong_type_message_witness:
  "Kind exLiveness = MappingNode
   \<and> mapify exLiveness ''livenessProbe'' = Some (strNode ''yes'' 9)
   \<and> Kind (strNode ''yes'' 9) \<noteq> MappingNode
   \<and> ''pod.yaml:9 readinessProbe must be object''
        \<in> set (stdout (Validator_validateContainer exLiveness (newValidator ''pod.yaml'')))
   \<and> stdout (Validator_validateContainer exLiveness (newValidator ''pod.yaml''))
        = [''pod.yaml:9 readinessProbe must be object'']"
proof -
  have h1: "Kind exLiveness = MappingNode" by code_simp
  have h2: "mapify exLiveness ''livenessProbe'' = Some (strNode ''yes'' 9)" by code_simp
  have h3: "Kind (strNode ''yes'' 9) \<noteq> MappingNode" by code_simp
  have fn: "filename (newValidator ''pod.yaml'') = ''pod.yaml''" by code_simp
  have ln: "itoa (Line (strNode ''yes'' 9)) = ''9''" by code_simp
  have all: "stdout (Validator_validateContainer exLiveness (newValidator ''pod.yaml''))
      = [''pod.yaml:9 readinessProbe must be object'']"
    by code_simp
  from probe_wrong_type_message [OF h1 h2 h3, of "newValidator ''pod.yaml''"]
  have "''pod.yaml:9 readinessProbe must be object''
      \<in> set (stdout (Validator_validateContainer exLiveness (newValidator ''pod.yaml'')))"
    by (simp add: fn ln)
  with h1 h2 h3 all show ?thesis by blast
qed


end
